theory Spec2Isabelle
  imports Complex_Main "HOL-Library.Word" "HOL-Library.Product_Lexorder" "HOL-Library.AList"
begin

unbundle bit_operations_syntax

text \<open>
  A model of the rendering pipeline of MapSCII, the terminal map viewer: the braille
  raster \<open>BrailleBuffer\<close> and its frame emission, the label index \<open>LabelBuffer\<close>,
  the polygon primitive of \<open>Canvas\<close>, the filter compiler of \<open>Styler\<close>, the feature
  records of \<open>Tile\<close> and the tile cache of \<open>TileSource\<close>. Each class is a record of
  its fields, each method a function from the state before the call to the result and
  the state after it, and a thrown exception is the left summand of the result. The
  definitions come first; the properties proved of them follow.
\<close>

section \<open>JavaScript numbers used as integers\<close>

text \<open>
  The numbers of the program that the properties below depend on are integers
  (pixel coordinates, palette indices, buffer indices). They are modelled as \<open>int\<close>.
  The bitwise operators of JavaScript first convert their operands to a signed 32-bit
  integer; \<open>to_int32\<close> writes that conversion out.
\<close>

definition to_int32 :: "int \<Rightarrow> int" where
  "to_int32 n = (n + 2 ^ 31) mod 2 ^ 32 - 2 ^ 31"

text \<open>\<open>a >> k\<close>, \<open>a & b\<close> and \<open>a | b\<close> of JavaScript.\<close>

definition js_shr :: "int \<Rightarrow> nat \<Rightarrow> int" where
  "js_shr a k = drop_bit k (to_int32 a)"

definition js_and :: "int \<Rightarrow> int \<Rightarrow> int" where
  "js_and a b = to_int32 a AND to_int32 b"

definition js_or :: "int \<Rightarrow> int \<Rightarrow> int" where
  "js_or a b = to_int32 a OR to_int32 b"

text \<open>
  Decimal printing of a number inside a template string or by \<open>join\<close>. JavaScript
  prints a number from \<open>1e21\<close> on in exponent form; the model prints the numbers
  below that, which is where palette indices and tile coordinates are.
\<close>

fun show_nat :: "nat \<Rightarrow> string" where
  "show_nat n =
     (if n < 10 then [''0123456789'' ! n]
      else show_nat (n div 10) @ [''0123456789'' ! (n mod 10)])"

declare show_nat.simps [simp del]

definition show_int :: "int \<Rightarrow> string" where
  "show_int i = (if i < 0 then CHR ''-'' # show_nat (nat (- i)) else show_nat (nat i))"

section \<open>BrailleBuffer\<close>

text \<open>
  A Node \<open>Buffer\<close> is an array of bytes. A read outside the array gives \<open>undefined\<close>
  (\<open>None\<close>), a write outside the array is dropped, and a written number is reduced
  modulo 256.
\<close>

type_synonym byte = "8 word"

definition buf_get :: "byte list \<Rightarrow> int \<Rightarrow> byte option" where
  "buf_get xs i = (if 0 \<le> i \<and> i < int (length xs) then Some (xs ! nat i) else None)"

definition buf_set :: "byte list \<Rightarrow> int \<Rightarrow> byte \<Rightarrow> byte list" where
  "buf_set xs i v = (if 0 \<le> i \<and> i < int (length xs) then xs[nat i := v] else xs)"

text \<open>
  \<open>buf[idx] |= mask\<close> and \<open>buf[idx] &= ~mask\<close> on a byte array: the cell is read
  (\<open>undefined\<close> counts as 0 in a bitwise operation), combined with the mask, and the low
  eight bits are written back. The masks of \<open>brailleMap\<close> are below 256, so the
  operation is the bytewise one.
\<close>

definition buf_or :: "byte list \<Rightarrow> int \<Rightarrow> byte \<Rightarrow> byte list" where
  "buf_or xs i bitmask =
     buf_set xs i ((case buf_get xs i of None \<Rightarrow> 0 | Some v \<Rightarrow> v) OR bitmask)"

definition buf_and_not :: "byte list \<Rightarrow> int \<Rightarrow> byte \<Rightarrow> byte list" where
  "buf_and_not xs i bitmask =
     buf_set xs i ((case buf_get xs i of None \<Rightarrow> 0 | Some v \<Rightarrow> v) AND NOT bitmask)"

text \<open>
  The fields of the class. \<open>charBuffer\<close> is a sparse JavaScript array, modelled as a
  partial map from indices to strings. \<open>asciiToBraille\<close> is the glyph table that
  \<open>_mapBraille\<close> fills at construction; it is only read when braille output is switched
  off and is kept as the table it is.
\<close>

record BrailleBuffer =
  pixelBuffer :: "byte list"
  charBuffer :: "int \<Rightarrow> string option"
  foregroundBuffer :: "byte list"
  backgroundBuffer :: "byte list"
  asciiToBraille :: "string list"
  globalBackground :: "int option"
  width :: int
  height :: int

definition brailleMap :: "byte list list" where
  "brailleMap = [[0x1, 0x8], [0x2, 0x10], [0x4, 0x20], [0x40, 0x80]]"

text \<open>
  The constructor allocates three buffers of \<open>width * height / 8\<close> bytes and clears
  them. \<open>Buffer.alloc\<close> drops the fraction of its size and throws a RangeError on a
  negative size and on one above \<open>buffer.constants.MAX_LENGTH\<close>, which depends on the
  platform and is the parameter \<open>kMaxLength\<close>. \<open>alloc_BrailleBuffer\<close> is the body
  of the constructor past that check. The glyph table is the one \<open>_mapBraille\<close>
  computes.
\<close>

datatype js_error = RangeError | TypeError | NoTileSource

definition clear :: "BrailleBuffer \<Rightarrow> BrailleBuffer" where
  "clear b = b\<lparr>pixelBuffer := map (\<lambda>_. 0) (pixelBuffer b),
               charBuffer := (\<lambda>_. None),
               foregroundBuffer := map (\<lambda>_. 0) (foregroundBuffer b),
               backgroundBuffer := map (\<lambda>_. 0) (backgroundBuffer b)\<rparr>"

definition alloc_BrailleBuffer :: "string list \<Rightarrow> int \<Rightarrow> int \<Rightarrow> BrailleBuffer" where
  "alloc_BrailleBuffer table w h =
     (let size = nat (w * h div 8) in
        clear \<lparr>pixelBuffer = replicate size 0,
               charBuffer = (\<lambda>_. None),
               foregroundBuffer = replicate size 0,
               backgroundBuffer = replicate size 0,
               asciiToBraille = table,
               globalBackground = None,
               width = w,
               height = h\<rparr>)"

definition new_BrailleBuffer ::
  "int \<Rightarrow> string list \<Rightarrow> int \<Rightarrow> int \<Rightarrow> js_error + BrailleBuffer" where
  "new_BrailleBuffer kMaxLength table w h =
     (if w * h < 0 \<or> w * h > 8 * kMaxLength then Inl RangeError
      else Inr (alloc_BrailleBuffer table w h))"

definition setGlobalBackground :: "BrailleBuffer \<Rightarrow> int \<Rightarrow> BrailleBuffer" where
  "setGlobalBackground b background = b\<lparr>globalBackground := Some background\<rparr>"

definition project :: "BrailleBuffer \<Rightarrow> int \<Rightarrow> int \<Rightarrow> int" where
  "project b x y = js_shr x 1 + js_shr (width b) 1 * js_shr y 2"

definition setBackground :: "BrailleBuffer \<Rightarrow> int \<Rightarrow> int \<Rightarrow> int \<Rightarrow> BrailleBuffer" where
  "setBackground b x y color =
     (if 0 \<le> x \<and> x < width b \<and> 0 \<le> y \<and> y < height b
      then b\<lparr>backgroundBuffer := buf_set (backgroundBuffer b) (project b x y) (word_of_int color)\<rparr>
      else b)"

text \<open>\<open>_locate\<close> calls its callback with the cell index and the bit mask of the pixel.\<close>

definition locate ::
  "BrailleBuffer \<Rightarrow> int \<Rightarrow> int \<Rightarrow> (int \<Rightarrow> byte \<Rightarrow> BrailleBuffer) \<Rightarrow> BrailleBuffer" where
  "locate b x y cb =
     (if \<not> ((0 \<le> x \<and> x < width b) \<and> (0 \<le> y \<and> y < height b)) then b
      else let idx = project b x y;
               bitmask = brailleMap ! nat (js_and y 3) ! nat (js_and x 1)
           in cb idx bitmask)"

definition setPixel :: "BrailleBuffer \<Rightarrow> int \<Rightarrow> int \<Rightarrow> int \<Rightarrow> BrailleBuffer" where
  "setPixel b x y color =
     locate b x y (\<lambda>idx bitmask.
       b\<lparr>pixelBuffer := buf_or (pixelBuffer b) idx bitmask,
         foregroundBuffer := buf_set (foregroundBuffer b) idx (word_of_int color)\<rparr>)"

definition unsetPixel :: "BrailleBuffer \<Rightarrow> int \<Rightarrow> int \<Rightarrow> BrailleBuffer" where
  "unsetPixel b x y =
     locate b x y (\<lambda>idx bitmask.
       b\<lparr>pixelBuffer := buf_and_not (pixelBuffer b) idx bitmask\<rparr>)"

definition setChar :: "BrailleBuffer \<Rightarrow> string \<Rightarrow> int \<Rightarrow> int \<Rightarrow> int \<Rightarrow> BrailleBuffer" where
  "setChar b char x y color =
     (if 0 \<le> x \<and> x < width b \<and> 0 \<le> y \<and> y < height b
      then let idx = project b x y in
        b\<lparr>charBuffer := (charBuffer b)(idx := Some char),
          foregroundBuffer := buf_set (foregroundBuffer b) idx (word_of_int color)\<rparr>
      else b)"

subsection \<open>Frame emission\<close>

text \<open>
  The fields of \<open>config\<close> that the modelled code reads, and the escape sequences.
  \<open>stringWidth\<close> is the function of the npm package \<open>string-width\<close>; the model takes
  it as a parameter.
\<close>

record Config =
  language :: string
  useBraille :: bool
  delimeter :: string

definition ESC :: char where
  "ESC = CHR 0x1B"

definition termReset :: string where
  "termReset = ESC # ''[39;49m''"

text \<open>
  \<open>_termColor(foreground, background)\<close>: both arguments are a number or \<open>null\<close>
  (\<open>None\<close>). The first statement is \<open>background = background | this.globalBackground\<close>,
  a bitwise OR in which \<open>null\<close> counts as 0. A number is truthy when it is not 0.
\<close>

definition null_to_0 :: "int option \<Rightarrow> int" where
  "null_to_0 v = (case v of None \<Rightarrow> 0 | Some n \<Rightarrow> n)"

definition termColor :: "BrailleBuffer \<Rightarrow> int option \<Rightarrow> int option \<Rightarrow> string" where
  "termColor b foreground background0 =
     (let background = js_or (null_to_0 background0) (null_to_0 (globalBackground b));
          fg_set = (null_to_0 foreground \<noteq> 0)
      in if fg_set \<and> background \<noteq> 0 then
           ESC # ''[38;5;'' @ show_int (null_to_0 foreground) @ '';48;5;'' @ show_int background @ ''m''
         else if fg_set then
           ESC # ''[49;38;5;'' @ show_int (null_to_0 foreground) @ ''m''
         else if background \<noteq> 0 then
           ESC # ''[39;48;5;'' @ show_int background @ ''m''
         else termReset)"

text \<open>
  The elements pushed on the \<open>output\<close> array of \<open>frame\<close>, tagged by the statement that
  pushes them; \<open>frame\<close> returns their concatenation. \<open>CharCode n\<close> is
  \<open>String.fromCharCode(n)\<close>, \<open>Glyph g\<close> an entry of \<open>asciiToBraille\<close>
  (\<open>None\<close> when the entry is \<open>undefined\<close>, which \<open>join\<close> prints as nothing).
\<close>

datatype piece =
    Sgr string
  | Delimiter string
  | Text string
  | CharCode nat
  | Glyph "string option"

text \<open>The variables of \<open>frame\<close>; \<open>out\<close> is its array \<open>output\<close>.\<close>

record FrameState =
  out :: "piece list"
  currentColor :: "string option"
  skip :: int

text \<open>
  \<open>idx = y * this.width / 2 + x\<close> is not an integer when \<open>y * width\<close> is odd
  (\<open>None\<close>); an array read at such an index gives \<open>undefined\<close>.
\<close>

definition frameIndex :: "BrailleBuffer \<Rightarrow> int \<Rightarrow> int \<Rightarrow> int option" where
  "frameIndex b y x = (if even (y * width b) then Some (y * width b div 2 + x) else None)"

definition idx_get :: "byte list \<Rightarrow> int option \<Rightarrow> byte option" where
  "idx_get xs idx = (case idx of None \<Rightarrow> None | Some i \<Rightarrow> buf_get xs i)"

text \<open>\<open>buffer[idx] || null\<close>: a byte 0 and \<open>undefined\<close> both become \<open>null\<close>.\<close>

definition or_null :: "byte option \<Rightarrow> int option" where
  "or_null v = (case v of None \<Rightarrow> None | Some w \<Rightarrow> if w = 0 then None else Some (uint w))"

definition cellColor :: "BrailleBuffer \<Rightarrow> int option \<Rightarrow> string" where
  "cellColor b idx =
     termColor b (or_null (idx_get (foregroundBuffer b) idx))
                 (or_null (idx_get (backgroundBuffer b) idx))"

definition cellGlyph :: "Config \<Rightarrow> BrailleBuffer \<Rightarrow> int option \<Rightarrow> piece" where
  "cellGlyph cfg b idx =
     (if useBraille cfg then
        CharCode (case idx_get (pixelBuffer b) idx of None \<Rightarrow> 0 | Some v \<Rightarrow> 0x2800 + unat v)
      else
        Glyph (case idx_get (pixelBuffer b) idx of
                 None \<Rightarrow> None
               | Some v \<Rightarrow> if unat v < length (asciiToBraille b)
                           then Some (asciiToBraille b ! unat v) else None))"

text \<open>The body of the inner loop of \<open>frame\<close>, for the cell in column \<open>x\<close> of row \<open>y\<close>.\<close>

definition frameCell ::
  "Config \<Rightarrow> (string \<Rightarrow> int) \<Rightarrow> BrailleBuffer \<Rightarrow> int \<Rightarrow> int \<Rightarrow> FrameState \<Rightarrow> FrameState" where
  "frameCell cfg stringWidth b y x st =
     (let idx = frameIndex b y x;
          st1 = (if idx \<noteq> Some 0 \<and> x = 0
                 then st\<lparr>out := out st @ [Delimiter (delimeter cfg)]\<rparr> else st);
          colorCode = cellColor b idx;
          st2 = (if currentColor st1 \<noteq> Some colorCode
                 then st1\<lparr>out := out st1 @ [Sgr colorCode], currentColor := Some colorCode\<rparr>
                 else st1);
          char = (case idx of None \<Rightarrow> None | Some i \<Rightarrow> charBuffer b i)
      in if char \<noteq> None \<and> char \<noteq> Some [] then
           let st3 = st2\<lparr>skip := skip st2 + stringWidth (the char) - 1\<rparr>
           in if 2 * (skip st3 + x) < width b
              then st3\<lparr>out := out st3 @ [Text (the char)]\<rparr> else st3
         else if skip st2 = 0 then st2\<lparr>out := out st2 @ [cellGlyph cfg b idx]\<rparr>
         else st2\<lparr>skip := skip st2 - 1\<rparr>)"

text \<open>
  The loops: \<open>x\<close> runs over the integers with \<open>x < width / 2\<close>, that is
  \<open>0 .. (width - 1) div 2\<close>, and \<open>y\<close> over those with \<open>y < height / 4\<close>.
\<close>

definition frameRow ::
  "Config \<Rightarrow> (string \<Rightarrow> int) \<Rightarrow> BrailleBuffer \<Rightarrow> int \<Rightarrow> FrameState \<Rightarrow> FrameState" where
  "frameRow cfg stringWidth b y st =
     fold (frameCell cfg stringWidth b y) [0 .. (width b - 1) div 2] (st\<lparr>skip := 0\<rparr>)"

definition frameCells :: "Config \<Rightarrow> (string \<Rightarrow> int) \<Rightarrow> BrailleBuffer \<Rightarrow> FrameState" where
  "frameCells cfg stringWidth b =
     fold (frameRow cfg stringWidth b) [0 .. (height b - 1) div 4]
       \<lparr>out = [], currentColor = None, skip = 0\<rparr>"

text \<open>
  The variables of \<open>frame\<close> when its loops reach the cell in column \<open>x\<close> of row
  \<open>y\<close>: the rows before \<open>y\<close> are done, \<open>skip\<close> is reset, and the cells of the row
  before column \<open>x\<close> are done.
\<close>

definition stateBefore ::
  "Config \<Rightarrow> (string \<Rightarrow> int) \<Rightarrow> BrailleBuffer \<Rightarrow> int \<Rightarrow> int \<Rightarrow> FrameState" where
  "stateBefore cfg stringWidth b y x =
     fold (frameCell cfg stringWidth b y) [0 .. x - 1]
       ((fold (frameRow cfg stringWidth b) [0 .. y - 1]
           \<lparr>out = [], currentColor = None, skip = 0\<rparr>)\<lparr>skip := 0\<rparr>)"

text \<open>The variables of \<open>frame\<close> when it has done that cell.\<close>

definition afterCell ::
  "Config \<Rightarrow> (string \<Rightarrow> int) \<Rightarrow> BrailleBuffer \<Rightarrow> int \<Rightarrow> int \<Rightarrow> FrameState" where
  "afterCell cfg stringWidth b y x =
     frameCell cfg stringWidth b y x (stateBefore cfg stringWidth b y x)"

definition frame :: "Config \<Rightarrow> (string \<Rightarrow> int) \<Rightarrow> BrailleBuffer \<Rightarrow> piece list" where
  "frame cfg stringWidth b =
     out (frameCells cfg stringWidth b) @ [Sgr termReset, Delimiter (delimeter cfg)]"

text \<open>The SGR sequences of a frame, in the order of their emission.\<close>

fun sgrs :: "piece list \<Rightarrow> string list" where
  "sgrs [] = []"
| "sgrs (Sgr s # ps) = s # sgrs ps"
| "sgrs (_ # ps) = sgrs ps"

subsection \<open>The data model of the raster\<close>

text \<open>
  The buffers the viewer builds (\<open>Mapscii._resizeRenderer\<close>) have an even width and a
  height that is a multiple of 4, so that \<open>width * height / 8\<close> is the number of
  terminal cells. \<open>wf_buffer\<close> states this, and that the three byte arrays have the
  size the constructor gave them.
\<close>

definition wf_buffer :: "BrailleBuffer \<Rightarrow> bool" where
  "wf_buffer b \<longleftrightarrow>
     0 \<le> width b \<and> width b < 2 ^ 31 \<and> even (width b) \<and>
     0 \<le> height b \<and> height b < 2 ^ 31 \<and> height b mod 4 = 0 \<and>
     length (pixelBuffer b) = nat (width b * height b div 8) \<and>
     length (foregroundBuffer b) = nat (width b * height b div 8) \<and>
     length (backgroundBuffer b) = nat (width b * height b div 8)"

definition in_range :: "BrailleBuffer \<Rightarrow> int \<Rightarrow> int \<Rightarrow> bool" where
  "in_range b x y \<longleftrightarrow> 0 \<le> x \<and> x < width b \<and> 0 \<le> y \<and> y < height b"

text \<open>The cell index \<open>(x>>1) + (W>>1)*(y>>2)\<close> of a pixel, as a position in the arrays.\<close>

definition cell :: "BrailleBuffer \<Rightarrow> int \<Rightarrow> int \<Rightarrow> nat" where
  "cell b x y = nat (x div 2 + (width b div 2) * (y div 4))"

text \<open>
  The canonical braille layout, as the number of the bit of the pixel in column \<open>col\<close>
  and row \<open>row\<close> of a cell: column 0 holds \<open>0x01, 0x02, 0x04, 0x40\<close> and column 1
  holds \<open>0x08, 0x10, 0x20, 0x80\<close>, from the top row down.
\<close>

definition canonical_bit :: "int \<Rightarrow> int \<Rightarrow> nat" where
  "canonical_bit col row =
     (if col = 0 then (if row = 0 then 0 else if row = 1 then 1 else if row = 2 then 2 else 6)
      else (if row = 0 then 3 else if row = 1 then 4 else if row = 2 then 5 else 7))"

text \<open>Buffers used as concrete inputs below.\<close>

definition buffer_4x8 :: BrailleBuffer where
  "buffer_4x8 = alloc_BrailleBuffer [] 4 8"

definition blank_buffer :: BrailleBuffer where
  "blank_buffer = alloc_BrailleBuffer [] 2 4"

definition lit_buffer :: BrailleBuffer where
  "lit_buffer = setPixel blank_buffer 0 0 1"

text \<open>
  One cell with foreground 5 and cell background 1, on a global background 2.
\<close>

definition tinted_buffer :: BrailleBuffer where
  "tinted_buffer =
     setPixel (setBackground (setGlobalBackground blank_buffer 2) 0 0 1) 0 0 5"

text \<open>One cell with the cell background 4 and no foreground.\<close>

definition backed_buffer :: BrailleBuffer where
  "backed_buffer = setBackground blank_buffer 0 0 4"

text \<open>The default configuration, and a \<open>stringWidth\<close> of one column per string.\<close>

definition cfg0 :: Config where
  "cfg0 = \<lparr>language = ''en'', useBraille = True, delimeter = [CHR 0x0A, CHR 0x0D]\<rparr>"

definition width1 :: "string \<Rightarrow> int" where
  "width1 s = 1"

text \<open>
  The invariant of the loops of \<open>frame\<close>: \<open>currentColor\<close> is the last SGR sequence
  pushed, and no two SGR sequences pushed one after the other are equal.
\<close>

definition frame_inv :: "FrameState \<Rightarrow> bool" where
  "frame_inv st \<longleftrightarrow>
     distinct_adj (sgrs (out st)) \<and>
     currentColor st = (if sgrs (out st) = [] then None else Some (last (sgrs (out st))))"

section \<open>LabelBuffer\<close>

text \<open>
  The label index keeps its rectangles in an R-tree of the npm package \<open>rbush\<close>. The
  model keeps the items of the tree in a list, in the order of insertion:
  \<open>tree.insert(item)\<close> adds the item and returns the tree, and \<open>tree.collides(bbox)\<close>
  holds when some item intersects the box, both borders included. Coordinates are
  rational numbers, since half a margin need not be an integer.
\<close>

record BBox =
  minX :: rat
  minY :: rat
  maxX :: rat
  maxY :: rat

record 'f Item = BBox +
  feature :: "'f option"

record 'f LabelBuffer =
  tree :: "'f Item list"
  margin :: rat

definition intersects :: "'a BBox_scheme \<Rightarrow> 'b BBox_scheme \<Rightarrow> bool" where
  "intersects a b \<longleftrightarrow>
     minX b \<le> maxX a \<and> minY b \<le> maxY a \<and> maxX b \<ge> minX a \<and> maxY b \<ge> minY a"

definition collides :: "'f Item list \<Rightarrow> BBox \<Rightarrow> bool" where
  "collides t bbox = list_ex (\<lambda>item. intersects bbox item) t"

definition new_LabelBuffer :: "'f LabelBuffer" where
  "new_LabelBuffer = \<lparr>tree = [], margin = 5\<rparr>"

definition label_project :: "rat \<Rightarrow> rat \<Rightarrow> int \<times> int" where
  "label_project x y = (\<lfloor>x / 2\<rfloor>, \<lfloor>y / 4\<rfloor>)"

text \<open>\<open>_calculateArea(text, x, y, margin = 0)\<close>.\<close>

definition calculateArea :: "(string \<Rightarrow> int) \<Rightarrow> string \<Rightarrow> rat \<Rightarrow> rat \<Rightarrow> rat \<Rightarrow> BBox" where
  "calculateArea stringWidth text x y m =
     \<lparr>minX = x - m,
      minY = y - m / 2,
      maxX = x + m + of_int (stringWidth text),
      maxY = y + m / 2\<rparr>"

text \<open>\<open>_hasSpace(text, x, y)\<close> calls \<open>_calculateArea\<close> without a margin, that is with 0.\<close>

definition hasSpace :: "(string \<Rightarrow> int) \<Rightarrow> 'f LabelBuffer \<Rightarrow> string \<Rightarrow> rat \<Rightarrow> rat \<Rightarrow> bool" where
  "hasSpace stringWidth lb text x y \<longleftrightarrow> \<not> collides (tree lb) (calculateArea stringWidth text x y 0)"

text \<open>
  \<open>writeIfPossible\<close> returns \<open>false\<close> or what \<open>tree.insert\<close> returns, the tree
  itself. The argument \<open>margin\<close> is optional; \<open>margin || this.margin\<close> replaces a
  missing margin and the margin 0 by the margin of the buffer.
\<close>

datatype write_result = ReturnedFalse | ReturnedTree

definition margin_or_default :: "'f LabelBuffer \<Rightarrow> rat option \<Rightarrow> rat" where
  "margin_or_default lb margin0 =
     (case margin0 of None \<Rightarrow> margin lb | Some v \<Rightarrow> if v = 0 then margin lb else v)"

definition writeIfPossible ::
  "(string \<Rightarrow> int) \<Rightarrow> 'f LabelBuffer \<Rightarrow> string \<Rightarrow> rat \<Rightarrow> rat \<Rightarrow> 'f \<Rightarrow> rat option
     \<Rightarrow> write_result \<times> 'f LabelBuffer" where
  "writeIfPossible stringWidth lb text x y feat margin0 =
     (let m = margin_or_default lb margin0;
          point = label_project x y
      in if hasSpace stringWidth lb text (of_int (fst point)) (of_int (snd point)) then
           let area = calculateArea stringWidth text (of_int (fst point)) (of_int (snd point)) m;
               data = BBox.extend area (Item.fields (Some feat))
           in (ReturnedTree, lb\<lparr>tree := tree lb @ [data]\<rparr>)
         else (ReturnedFalse, lb))"

text \<open>A width function for plain ASCII text, and a buffer holding one label.\<close>

definition ascii_width :: "string \<Rightarrow> int" where
  "ascii_width s = int (length s)"

definition one_label :: "nat LabelBuffer" where
  "one_label = snd (writeIfPossible ascii_width new_LabelBuffer ''a'' 0 0 1 (Some 5))"

section \<open>Canvas\<close>

text \<open>
  A point is a pair \<open>(x, y)\<close>. \<open>earcut\<close> and \<open>bresenham\<close> are npm packages and
  parameters of the model: \<open>earcut vertices holes\<close> is \<open>None\<close> when the triangulation
  throws and the list of vertex indices of the triangles otherwise, and
  \<open>bresenham x0 y0 x1 y1\<close> is the list of points of the line.
\<close>

type_synonym Point = "int \<times> int"

record Canvas =
  canvas_width :: int
  canvas_height :: int
  buffer :: BrailleBuffer

definition new_Canvas :: "int \<Rightarrow> string list \<Rightarrow> int \<Rightarrow> int \<Rightarrow> js_error + Canvas" where
  "new_Canvas kMaxLength table w h =
     (case new_BrailleBuffer kMaxLength table w h of
        Inl e \<Rightarrow> Inl e
      | Inr b \<Rightarrow> Inr \<lparr>canvas_width = w, canvas_height = h, buffer = b\<rparr>)"

text \<open>
  The first loop of \<open>polygon\<close>, which flattens the rings into \<open>vertices\<close> and records
  in \<open>holes\<close> where each inner ring starts; \<open>None\<close> is its \<open>return false\<close>.
\<close>

definition flatten_ring :: "Point list \<Rightarrow> int list" where
  "flatten_ring ring = concat (map (\<lambda>point. [fst point, snd point]) ring)"

fun collectRings :: "Point list list \<Rightarrow> int list \<Rightarrow> nat list \<Rightarrow> (int list \<times> nat list) option" where
  "collectRings [] vertices holes = Some (vertices, holes)"
| "collectRings (ring # rings) vertices holes =
     (if vertices \<noteq> [] then
        (if length ring < 3 then collectRings rings vertices holes
         else collectRings rings (vertices @ flatten_ring ring) (holes @ [length vertices div 2]))
      else
        (if length ring < 3 then None
         else collectRings rings (vertices @ flatten_ring ring) holes))"

text \<open>
  What \<open>polygon\<close> is to hand to the triangulation, in the words of its description:
  the flattened array \<open>[x0, y0, x1, y1, ...]\<close> of the vertices of the outer ring and
  of the inner rings that have at least 3 vertices, and for each of these inner rings
  the index of its first vertex.
\<close>

definition kept_rings :: "Point list list \<Rightarrow> Point list list" where
  "kept_rings rings = filter (\<lambda>ring. \<not> length ring < 3) rings"

fun hole_starts :: "nat \<Rightarrow> Point list list \<Rightarrow> nat list" where
  "hole_starts n [] = []"
| "hole_starts n (ring # rings) = n # hole_starts (n + length ring) rings"

text \<open>\<open>_polygonExtract\<close>; an index outside the array reads \<open>undefined\<close> (\<open>None\<close>).\<close>

definition polygonExtract :: "int list \<Rightarrow> nat \<Rightarrow> Point option" where
  "polygonExtract vertices pointId =
     (if pointId * 2 + 1 < length vertices
      then Some (vertices ! (pointId * 2), vertices ! (pointId * 2 + 1)) else None)"

text \<open>
  The loop of \<open>_filledTriangle\<close> over the sorted points: a point and its successor on
  the same row give a horizontal span, clipped to the canvas; any other point is set
  alone.
\<close>

fun fillSpans :: "int \<Rightarrow> int \<Rightarrow> Point list \<Rightarrow> BrailleBuffer \<Rightarrow> BrailleBuffer" where
  "fillSpans w color [] b = b"
| "fillSpans w color [point] b = setPixel b (fst point) (snd point) color"
| "fillSpans w color (point # next # rest) b =
     fillSpans w color (next # rest)
       (if snd point = snd next then
          (let left = max 0 (fst point); right = min (w - 1) (fst next)
           in if left \<ge> 0 \<and> right \<le> w
              then fold (\<lambda>x b'. setPixel b' x (snd point) color) [left .. right] b
              else b)
        else setPixel b (fst point) (snd point) color)"

definition filledTriangle ::
  "(int \<Rightarrow> int \<Rightarrow> int \<Rightarrow> int \<Rightarrow> Point list) \<Rightarrow> Canvas \<Rightarrow> Point \<Rightarrow> Point \<Rightarrow> Point \<Rightarrow> int \<Rightarrow> Canvas" where
  "filledTriangle bresenham cv pointA pointB pointC color =
     (let a = bresenham (fst pointB) (snd pointB) (fst pointC) (snd pointC);
          b = bresenham (fst pointA) (snd pointA) (fst pointC) (snd pointC);
          c = bresenham (fst pointA) (snd pointA) (fst pointB) (snd pointB);
          points = sort_key (\<lambda>point. (snd point, fst point))
                     (filter (\<lambda>point. 0 \<le> snd point \<and> snd point < canvas_height cv) (a @ b @ c))
      in cv\<lparr>buffer := fillSpans (canvas_width cv) color points (buffer cv)\<rparr>)"

text \<open>
  The second loop of \<open>polygon\<close>, over the triangles in steps of three indices. The
  model covers the results of \<open>earcut\<close> that are triples of indices of vertices; on any
  other list of indices the loop would read \<open>undefined\<close> coordinates, which the model
  gives as \<open>None\<close>.
\<close>

fun drawTriangles ::
  "(int \<Rightarrow> int \<Rightarrow> int \<Rightarrow> int \<Rightarrow> Point list) \<Rightarrow> int list \<Rightarrow> int \<Rightarrow> nat list \<Rightarrow> Canvas \<Rightarrow> Canvas option" where
  "drawTriangles bresenham vertices color (i # j # k # triangles) cv =
     (case (polygonExtract vertices i, polygonExtract vertices j, polygonExtract vertices k) of
        (Some pa, Some pb, Some pc) \<Rightarrow>
          drawTriangles bresenham vertices color triangles
            (filledTriangle bresenham cv pa pb pc color)
      | _ \<Rightarrow> None)"
| "drawTriangles bresenham vertices color [] cv = Some cv"
| "drawTriangles bresenham vertices color _ cv = None"

definition polygon ::
  "(int list \<Rightarrow> nat list \<Rightarrow> nat list option) \<Rightarrow> (int \<Rightarrow> int \<Rightarrow> int \<Rightarrow> int \<Rightarrow> Point list)
     \<Rightarrow> Canvas \<Rightarrow> Point list list \<Rightarrow> int \<Rightarrow> (bool \<times> Canvas) option" where
  "polygon earcut bresenham cv rings color =
     (case collectRings rings [] [] of
        None \<Rightarrow> Some (False, cv)
      | Some (vertices, holes) \<Rightarrow>
          (case earcut vertices holes of
             None \<Rightarrow> Some (False, cv)
           | Some triangles \<Rightarrow>
               map_option (\<lambda>cv'. (True, cv')) (drawTriangles bresenham vertices color triangles cv)))"

text \<open>
  Concrete parameters: a triangulation that throws, one that returns the first three
  vertices, and a line drawer that returns the two end points.
\<close>

definition earcut_throws :: "int list \<Rightarrow> nat list \<Rightarrow> nat list option" where
  "earcut_throws vertices holes = None"

definition earcut_first :: "int list \<Rightarrow> nat list \<Rightarrow> nat list option" where
  "earcut_first vertices holes = Some [0, 1, 2]"

definition end_points :: "int \<Rightarrow> int \<Rightarrow> int \<Rightarrow> int \<Rightarrow> Point list" where
  "end_points x0 y0 x1 y1 = [(x0, y0), (x1, y1)]"

definition canvas_4x8 :: Canvas where
  "canvas_4x8 = \<lparr>canvas_width = 4, canvas_height = 8, buffer = buffer_4x8\<rparr>"

section \<open>Styler\<close>

text \<open>
  The values of a filter expression and of the properties of a feature: JSON scalars and
  arrays, with integers for the numbers. Strings are compared by their characters, which
  for ASCII text are the code units JavaScript compares. \<open>JNative s\<close> is a member
  that an object inherits from \<open>Object.prototype\<close>, a function or object that is no
  JSON value, given by the string \<open>s\<close> that \<open>ToString\<close> prints for it.
\<close>

datatype jsval =
  JUndefined | JNull | JBool bool | JNum int | JStr string | JArr "jsval list" | JNative string

fun truthy :: "jsval \<Rightarrow> bool" where
  "truthy JUndefined = False"
| "truthy JNull = False"
| "truthy (JBool b) = b"
| "truthy (JNum n) = (n \<noteq> 0)"
| "truthy (JStr s) = (s \<noteq> [])"
| "truthy (JArr xs) = True"
| "truthy (JNative s) = True"

text \<open>\<open>a || b\<close> on values.\<close>

definition js_or_else :: "jsval \<Rightarrow> jsval \<Rightarrow> jsval" where
  "js_or_else a b = (if truthy a then a else b)"

fun join_comma :: "string list \<Rightarrow> string" where
  "join_comma [] = []"
| "join_comma [s] = s"
| "join_comma (s # t # ss) = s @ '','' @ join_comma (t # ss)"

text \<open>\<open>ToString\<close>, which turns a value into a property key.\<close>

fun js_to_string :: "jsval \<Rightarrow> string" where
  "js_to_string JUndefined = ''undefined''"
| "js_to_string JNull = ''null''"
| "js_to_string (JBool b) = (if b then ''true'' else ''false'')"
| "js_to_string (JNum n) = show_int n"
| "js_to_string (JStr s) = s"
| "js_to_string (JNative s) = s"
| "js_to_string (JArr xs) =
     join_comma (map (\<lambda>v. if v = JUndefined \<or> v = JNull then [] else js_to_string v) xs)"

text \<open>
  \<open>a === b\<close>. An array or an inherited member is an object and equal only to itself;
  the values of a filter are never the value of a property, so such an operand gives
  false.
\<close>

fun strict_eq :: "jsval \<Rightarrow> jsval \<Rightarrow> bool" where
  "strict_eq (JArr xs) b = False"
| "strict_eq a (JArr ys) = False"
| "strict_eq (JNative s) b = False"
| "strict_eq a (JNative t) = False"
| "strict_eq a b = (a = b)"

text \<open>
  The relational operators: two strings are compared as strings, any other pair as
  numbers, and a comparison with \<open>NaN\<close> is false. \<open>StringToNumber\<close>, the conversion
  of a string to a number (\<open>None\<close> for \<open>NaN\<close>), is a parameter.
\<close>

datatype comparison = Less | Equal | Greater | Unordered

fun str_compare :: "string \<Rightarrow> string \<Rightarrow> comparison" where
  "str_compare [] [] = Equal"
| "str_compare [] (d # ds) = Less"
| "str_compare (c # cs) [] = Greater"
| "str_compare (c # cs) (d # ds) =
     (if (of_char c :: nat) < of_char d then Less
      else if (of_char d :: nat) < of_char c then Greater
      else str_compare cs ds)"

fun to_primitive :: "jsval \<Rightarrow> jsval" where
  "to_primitive (JArr xs) = JStr (js_to_string (JArr xs))"
| "to_primitive (JNative s) = JStr s"
| "to_primitive v = v"

fun to_number :: "(string \<Rightarrow> int option) \<Rightarrow> jsval \<Rightarrow> int option" where
  "to_number s2n JUndefined = None"
| "to_number s2n JNull = Some 0"
| "to_number s2n (JBool b) = Some (if b then 1 else 0)"
| "to_number s2n (JNum n) = Some n"
| "to_number s2n (JStr s) = s2n s"
| "to_number s2n (JArr xs) = s2n (js_to_string (JArr xs))"
| "to_number s2n (JNative s) = s2n s"

definition js_compare :: "(string \<Rightarrow> int option) \<Rightarrow> jsval \<Rightarrow> jsval \<Rightarrow> comparison" where
  "js_compare s2n a b =
     (case (to_primitive a, to_primitive b) of
        (JStr s, JStr t) \<Rightarrow> str_compare s t
      | (pa, pb) \<Rightarrow>
          (case (to_number s2n pa, to_number s2n pb) of
             (Some m, Some n) \<Rightarrow> if m < n then Less else if m = n then Equal else Greater
           | _ \<Rightarrow> Unordered))"

text \<open>
  A decoded feature of a vector tile: its own properties, the number of its geometry
  type and its geometry. The properties are a plain object: a key that is no property
  of its own reads the member of \<open>Object.prototype\<close> of that name, if there is one,
  and \<open>undefined\<close> otherwise.
\<close>

record VTFeature =
  properties :: "string \<rightharpoonup> jsval"
  ftype :: nat
  geometry :: "Point list list"

definition prototype_member :: "string \<Rightarrow> jsval" where
  "prototype_member k =
     (if k = ''__proto__'' then JNative ''[object Object]''
      else if k = ''constructor'' then JNative ''function Object() { [native code] }''
      else if k \<in> set [''hasOwnProperty'', ''isPrototypeOf'', ''propertyIsEnumerable'',
                        ''toLocaleString'', ''toString'', ''valueOf'',
                        ''__defineGetter__'', ''__defineSetter__'',
                        ''__lookupGetter__'', ''__lookupSetter__'']
      then JNative (''function '' @ k @ ''() { [native code] }'')
      else JUndefined)"

definition get_prop :: "VTFeature \<Rightarrow> string \<Rightarrow> jsval" where
  "get_prop f k = (case properties f k of None \<Rightarrow> prototype_member k | Some v \<Rightarrow> v)"

definition nth_or_undefined :: "jsval list \<Rightarrow> nat \<Rightarrow> jsval" where
  "nth_or_undefined xs i = (if i < length xs then xs ! i else JUndefined)"

text \<open>\<open>xs.find(p)\<close>: the first element that satisfies \<open>p\<close>, or \<open>undefined\<close>.\<close>

definition find_value :: "(jsval \<Rightarrow> bool) \<Rightarrow> jsval list \<Rightarrow> jsval" where
  "find_value p xs = (case List.find p xs of None \<Rightarrow> JUndefined | Some v \<Rightarrow> v)"

text \<open>
  The cases of \<open>_compileFilter\<close> that do not compile sub-filters, for a filter whose
  element 0 is \<open>opv\<close> and whose further elements are \<open>args\<close>: \<open>filter[1]\<close> is
  \<open>args[0]\<close>, \<open>filter[2]\<close> is \<open>args[1]\<close> and \<open>filter.slice(2)\<close> is \<open>args\<close> without
  its first element.
\<close>

definition leafFilter :: "(string \<Rightarrow> int option) \<Rightarrow> jsval \<Rightarrow> jsval list \<Rightarrow> VTFeature \<Rightarrow> bool" where
  "leafFilter s2n opv args f =
     (let prop = get_prop f (js_to_string (nth_or_undefined args 0));
          arg2 = nth_or_undefined args 1
      in if opv = JStr ''=='' then strict_eq prop arg2
         else if opv = JStr ''!='' then \<not> strict_eq prop arg2
         else if opv = JStr ''in'' then truthy (find_value (\<lambda>v. strict_eq prop v) (drop 1 args))
         else if opv = JStr ''!in'' then \<not> truthy (find_value (\<lambda>v. strict_eq prop v) (drop 1 args))
         else if opv = JStr ''has'' then truthy prop
         else if opv = JStr ''!has'' then \<not> truthy prop
         else if opv = JStr ''>'' then js_compare s2n prop arg2 = Greater
         else if opv = JStr ''>='' then js_compare s2n prop arg2 \<in> {Greater, Equal}
         else if opv = JStr ''<'' then js_compare s2n prop arg2 = Less
         else if opv = JStr ''<='' then js_compare s2n prop arg2 \<in> {Less, Equal}
         else True)"

text \<open>
  \<open>_compileFilter(filter)(feature)\<close>. The predicate of \<open>all\<close> is
  \<open>!!filters.find(appliesTo => !appliesTo(feature))\<close>: \<open>find\<close> returns a sub-filter
  that rejects the feature, a function and so truthy, or \<open>undefined\<close>. A string is
  indexed by its characters, so that a string filter can only reach the cases \<open>>\<close> and
  \<open><\<close>; any other value has no element 0 and compiles to the constant true.
\<close>

fun compileFilter :: "(string \<Rightarrow> int option) \<Rightarrow> jsval \<Rightarrow> VTFeature \<Rightarrow> bool" where
  "compileFilter s2n (JArr (opv # args)) f =
     (if opv = JStr ''all'' then list_ex (\<lambda>sub. \<not> compileFilter s2n sub f) args
      else if opv = JStr ''any'' then list_ex (\<lambda>sub. compileFilter s2n sub f) args
      else if opv = JStr ''none'' then \<not> list_ex (\<lambda>sub. \<not> compileFilter s2n sub f) args
      else leafFilter s2n opv args f)"
| "compileFilter s2n (JStr (c # cs)) f = leafFilter s2n (JStr [c]) (map (\<lambda>d. JStr [d]) cs) f"
| "compileFilter s2n v f = True"

text \<open>
  The compiled layers of a style, by source layer, and \<open>getStyleFor\<close>, which returns the
  first layer that applies to the feature, or \<open>false\<close> (\<open>None\<close>).
\<close>

record StyleLayer =
  style_id :: string
  style_type :: jsval
  style_filter :: jsval

record Styler =
  styleByLayer :: "string \<rightharpoonup> StyleLayer list"

definition getStyleFor ::
  "(string \<Rightarrow> int option) \<Rightarrow> Styler \<Rightarrow> string \<Rightarrow> VTFeature \<Rightarrow> StyleLayer option" where
  "getStyleFor s2n styler layer f =
     (case styleByLayer styler layer of
        None \<Rightarrow> None
      | Some styles \<Rightarrow> List.find (\<lambda>style. compileFilter s2n (style_filter style) f) styles)"

text \<open>Concrete inputs: no string is a number, and a feature of class \<open>a\<close>.\<close>

definition no_number :: "string \<Rightarrow> int option" where
  "no_number s = None"

definition feature_a :: VTFeature where
  "feature_a = \<lparr>properties = [''class'' \<mapsto> JStr ''a''], ftype = 2, geometry = [[(0, 0), (4, 4)]]\<rparr>"

definition class_is_a :: jsval where
  "class_is_a = JArr [JStr ''=='', JStr ''class'', JStr ''a'']"

section \<open>Tile\<close>

text \<open>
  The bounding box of a record starts at \<open>2e308\<close> and \<open>-2e308\<close>, which are
  \<open>Infinity\<close> and \<open>-Infinity\<close>, and stays there when the record has no point.
\<close>

datatype js_number = NegInfinity | Num int | Infinity

definition num_less :: "js_number \<Rightarrow> js_number \<Rightarrow> bool" where
  "num_less a b =
     (case (a, b) of
        (Num m, Num n) \<Rightarrow> m < n
      | (NegInfinity, _) \<Rightarrow> b \<noteq> NegInfinity
      | (_, Infinity) \<Rightarrow> a \<noteq> Infinity
      | _ \<Rightarrow> False)"

text \<open>
  The record built for a feature. The fields are those of the interface
  \<open>TileFeature\<close>, with the prefix \<open>node\<close>. The field \<open>points\<close> holds all rings
  of the geometry in the record of a fill, and one line of points in any other record.
\<close>

datatype points = Rings "Point list list" | Line "Point list"

record TileFeature =
  node_layer :: string
  node_style :: StyleLayer
  node_label :: jsval
  node_sort :: jsval
  node_points :: points
  node_color :: int
  node_minX :: js_number
  node_maxX :: js_number
  node_minY :: js_number
  node_maxY :: js_number

text \<open>
  \<open>_addBoundaries(deep, data)\<close> iterates over \<open>data.points[0]\<close> when \<open>deep\<close> and
  over \<open>data.points\<close> otherwise. \<open>_loadLayers\<close> calls it with \<open>deep\<close> on rings and
  without on a line. Iterating over the missing first ring of an empty geometry, or over
  a point, throws a TypeError; the elements of a list of rings have no \<open>x\<close> and \<open>y\<close>,
  so that every comparison with them is false.
\<close>

definition bound_step :: "Point \<Rightarrow> TileFeature \<Rightarrow> TileFeature" where
  "bound_step p d =
     (let d1 = (if num_less (Num (fst p)) (node_minX d) then d\<lparr>node_minX := Num (fst p)\<rparr> else d);
          d2 = (if num_less (node_maxX d1) (Num (fst p)) then d1\<lparr>node_maxX := Num (fst p)\<rparr> else d1);
          d3 = (if num_less (Num (snd p)) (node_minY d2) then d2\<lparr>node_minY := Num (snd p)\<rparr> else d2)
      in if num_less (node_maxY d3) (Num (snd p)) then d3\<lparr>node_maxY := Num (snd p)\<rparr> else d3)"

definition unbounded :: "TileFeature \<Rightarrow> TileFeature" where
  "unbounded data = data\<lparr>node_minX := Infinity, node_maxX := NegInfinity,
                           node_minY := Infinity, node_maxY := NegInfinity\<rparr>"

fun addBoundaries :: "bool \<Rightarrow> TileFeature \<Rightarrow> js_error + TileFeature" where
  "addBoundaries deep data =
     (case (deep, node_points data) of
        (True, Rings []) \<Rightarrow> Inl TypeError
      | (True, Rings (ring # rings)) \<Rightarrow> Inr (fold bound_step ring (unbounded data))
      | (True, Line ps) \<Rightarrow> Inl TypeError
      | (False, Line ps) \<Rightarrow> Inr (fold bound_step ps (unbounded data))
      | (False, Rings rings) \<Rightarrow> Inr (unbounded data))"

text \<open>
  The body of the loop of \<open>_loadLayers\<close> for one feature of the layer \<open>name\<close>: the
  records it pushes on \<open>nodes\<close>. The colour code is found from \<open>style.paint\<close> with
  \<open>utils.hex2rgb\<close> and the npm package \<open>x256\<close>; that step is the parameter
  \<open>colorOf\<close>, which is \<open>None\<close> when it throws. The styler is \<open>None\<close> when the tile has
  none; the style is then \<open>undefined\<close> and reading its paint throws a TypeError.
\<close>

definition type_name :: "nat \<Rightarrow> jsval" where
  "type_name t = nth_or_undefined [JUndefined, JStr ''Point'', JStr ''LineString'', JStr ''Polygon''] t"

fun collect_nodes :: "(js_error + TileFeature) list \<Rightarrow> js_error + TileFeature list" where
  "collect_nodes [] = Inr []"
| "collect_nodes (Inl e # rs) = Inl e"
| "collect_nodes (Inr n # rs) = (case collect_nodes rs of Inl e \<Rightarrow> Inl e | Inr ns \<Rightarrow> Inr (n # ns))"

definition featureNodes ::
  "Config \<Rightarrow> (string \<Rightarrow> int option) \<Rightarrow> (StyleLayer \<Rightarrow> int option) \<Rightarrow> Styler option \<Rightarrow> string
     \<Rightarrow> VTFeature \<Rightarrow> js_error + TileFeature list" where
  "featureNodes cfg s2n colorOf styler name feature0 =
     (let feature = feature0\<lparr>properties := (properties feature0)(''$type'' \<mapsto> type_name (ftype feature0))\<rparr>
      in case styler of
           None \<Rightarrow> Inl TypeError
         | Some st \<Rightarrow>
             (case getStyleFor s2n st name feature of
                None \<Rightarrow> Inr []
              | Some style \<Rightarrow>
                  (case colorOf style of
                     None \<Rightarrow> Inl TypeError
                   | Some colorCode \<Rightarrow>
                       let geometries = geometry feature;
                           sort = js_or_else (get_prop feature ''localrank'') (get_prop feature ''scalerank'');
                           label = (if style_type style = JStr ''symbol''
                                    then js_or_else (get_prop feature (''name_'' @ language cfg))
                                          (js_or_else (get_prop feature ''name_en'')
                                            (js_or_else (get_prop feature ''name'')
                                              (get_prop feature ''house_num'')))
                                    else JUndefined);
                           node = (\<lambda>points.
                              \<lparr>node_layer = name, node_style = style, node_label = label,
                               node_sort = sort, node_points = points, node_color = colorCode,
                               node_minX = Num 0, node_maxX = Num 0,
                               node_minY = Num 0, node_maxY = Num 0\<rparr>)
                       in if style_type style = JStr ''fill''
                          then collect_nodes [addBoundaries True (node (Rings geometries))]
                          else collect_nodes (map (\<lambda>points. addBoundaries False (node (Line points))) geometries))))"

text \<open>The nodes of a layer: those of its features, in order.\<close>

fun layerNodes ::
  "Config \<Rightarrow> (string \<Rightarrow> int option) \<Rightarrow> (StyleLayer \<Rightarrow> int option) \<Rightarrow> Styler option \<Rightarrow> string
     \<Rightarrow> VTFeature list \<Rightarrow> js_error + TileFeature list" where
  "layerNodes cfg s2n colorOf styler name [] = Inr []"
| "layerNodes cfg s2n colorOf styler name (f # fs) =
     (case featureNodes cfg s2n colorOf styler name f of
        Inl e \<Rightarrow> Inl e
      | Inr ns \<Rightarrow>
          (case layerNodes cfg s2n colorOf styler name fs of
             Inl e \<Rightarrow> Inl e
           | Inr ms \<Rightarrow> Inr (ns @ ms)))"

text \<open>Concrete inputs: a style of one line layer without filter, and three features.\<close>

definition road_style :: StyleLayer where
  "road_style = \<lparr>style_id = ''road'', style_type = JStr ''line'', style_filter = JUndefined\<rparr>"

definition road_styler :: Styler where
  "road_styler = \<lparr>styleByLayer = [''road'' \<mapsto> [road_style]]\<rparr>"

definition color7 :: "StyleLayer \<Rightarrow> int option" where
  "color7 style = Some 7"

definition feature_ranked :: VTFeature where
  "feature_ranked = \<lparr>properties = [''localrank'' \<mapsto> JNum 4, ''scalerank'' \<mapsto> JNum 9],
                      ftype = 2, geometry = [[(0, 0), (4, 4)]]\<rparr>"

definition feature_rank0 :: VTFeature where
  "feature_rank0 = \<lparr>properties = [''localrank'' \<mapsto> JNum 0, ''scalerank'' \<mapsto> JNum 9],
                     ftype = 2, geometry = [[(0, 0), (4, 4)]]\<rparr>"


text \<open>The records of a layer with one ranked feature.\<close>

definition ranked_nodes :: "TileFeature list" where
  "ranked_nodes =
     (case layerNodes cfg0 no_number color7 (Some road_styler) ''road'' [feature_ranked] of
        Inl e \<Rightarrow> []
      | Inr ns \<Rightarrow> ns)"

section \<open>TileSource\<close>

text \<open>
  The cache is a JavaScript object from keys to tiles, modelled as an association list;
  \<open>cached\<close> is the array of the keys in the order of their insertion. Fetching and
  decoding are outside the model; what the model keeps of them is the moment at which
  a fetch resolves and its continuation runs \<open>_createTile\<close>.
\<close>

datatype tile_mode = MBTiles | VectorTile | HTTP

record 'tile TileSource =
  cache :: "(string \<times> 'tile) list"
  cacheSize :: nat
  cached :: "string list"
  mode :: "tile_mode option"

text \<open>
  The state that \<open>init\<close> leaves: an empty cache of size 16, and the mode it infers
  from the source string (\<open>HTTP\<close> or \<open>MBTiles\<close>; for any other source it throws).
\<close>

definition init_TileSource :: "tile_mode \<Rightarrow> 'tile TileSource" where
  "init_TileSource m = \<lparr>cache = [], cacheSize = 16, cached = [], mode = Some m\<rparr>"

text \<open>\<open>[z, x, y].join('-')\<close>.\<close>

definition tile_key :: "int \<Rightarrow> int \<Rightarrow> int \<Rightarrow> string" where
  "tile_key z x y = show_int z @ ''-'' @ show_int x @ ''-'' @ show_int y"

text \<open>
  The eviction of \<open>getTile\<close>. \<open>splice(0, overflow)\<close> takes the oldest keys off
  \<open>cached\<close>; the loop \<open>for (const tile in ...)\<close> then runs over the indices
  \<open>"0", "1", ...\<close> of the array that \<open>splice\<close> returned, and deletes these from the
  cache.
\<close>

definition evict :: "'tile TileSource \<Rightarrow> 'tile TileSource" where
  "evict ts =
     (if length (cached ts) > cacheSize ts then
        let overflow = length (cached ts) - cacheSize ts;
            spliced = take overflow (cached ts)
        in ts\<lparr>cached := drop overflow (cached ts),
              cache := fold (\<lambda>i c. AList.delete (show_nat i) c) [0 ..< length spliced] (cache ts)\<rparr>
      else ts)"

definition createTile :: "'tile TileSource \<Rightarrow> int \<Rightarrow> int \<Rightarrow> int \<Rightarrow> 'tile \<Rightarrow> 'tile TileSource" where
  "createTile ts z x y tile =
     (let name = tile_key z x y
      in ts\<lparr>cached := cached ts @ [name], cache := AList.update name tile (cache ts)\<rparr>)"

text \<open>
  \<open>getTile(z, x, y)\<close>, up to its \<open>return\<close>: the promise it returns and the source
  at that moment. A hit returns a resolved promise. A miss runs the eviction and starts
  a fetch; \<open>_createTile\<close> is not run by the call but by the continuation of the fetch,
  when and if the fetch resolves. In the mode \<open>VectorTile\<close> the \<open>switch\<close> has no
  case and the call returns \<open>undefined\<close>.
\<close>

datatype 'tile promise = Hit 'tile | Pending | NoPromise

definition getTile ::
  "'tile TileSource \<Rightarrow> int \<Rightarrow> int \<Rightarrow> int \<Rightarrow> js_error + ('tile promise \<times> 'tile TileSource)" where
  "getTile ts z x y =
     (case mode ts of
        None \<Rightarrow> Inl NoTileSource
      | Some m \<Rightarrow>
          (case map_of (cache ts) (tile_key z x y) of
             Some hit \<Rightarrow> Inr (Hit hit, ts)
           | None \<Rightarrow>
               let ts' = evict ts
               in if m = VectorTile then Inr (NoPromise, ts') else Inr (Pending, ts')))"

text \<open>
  What happens to a source over time: calls of \<open>getTile\<close>, and fetches that resolve
  and run \<open>_createTile\<close> for their tile, in any order. The decoded tile is named by its
  key. A call that is awaited is a call followed at once by the resolution of its
  fetch.
\<close>

datatype event = Call int int int | Resolve int int int

fun run :: "string TileSource \<Rightarrow> event list \<Rightarrow> js_error + string TileSource" where
  "run ts [] = Inr ts"
| "run ts (Call z x y # es) =
     (case getTile ts z x y of
        Inl e \<Rightarrow> Inl e
      | Inr (p, ts') \<Rightarrow> run ts' es)"
| "run ts (Resolve z x y # es) = run (createTile ts z x y (tile_key z x y)) es"

definition awaited_calls :: "nat \<Rightarrow> event list" where
  "awaited_calls n = concat (map (\<lambda>x. [Call 5 (int x) 0, Resolve 5 (int x) 0]) [0 ..< n])"

section \<open>Properties of BrailleBuffer\<close>

lemma to_int32_id: "- (2 ^ 31) \<le> n \<Longrightarrow> n < 2 ^ 31 \<Longrightarrow> to_int32 n = n"
  by (simp add: to_int32_def)

lemma js_shr_small: "0 \<le> n \<Longrightarrow> n < 2 ^ 31 \<Longrightarrow> js_shr n k = n div 2 ^ k"
  by (simp add: js_shr_def to_int32_id drop_bit_eq_div)

lemma js_and_3: "0 \<le> n \<Longrightarrow> n < 2 ^ 31 \<Longrightarrow> js_and n 3 = n mod 4"
proof -
  assume a: "0 \<le> n" "n < 2 ^ 31"
  have "n AND 3 = take_bit 2 n" by (simp add: take_bit_eq_mask mask_eq_exp_minus_1)
  then show ?thesis using a by (simp add: js_and_def to_int32_id take_bit_eq_mod)
qed

lemma js_and_1: "0 \<le> n \<Longrightarrow> n < 2 ^ 31 \<Longrightarrow> js_and n 1 = n mod 2"
proof -
  assume a: "0 \<le> n" "n < 2 ^ 31"
  have "n AND 1 = take_bit 1 n" by (simp add: take_bit_eq_mask mask_eq_exp_minus_1)
  then show ?thesis using a by (simp add: js_and_def to_int32_id take_bit_eq_mod)
qed

lemma project_in_range:
  assumes "wf_buffer b" "in_range b x y"
  shows "project b x y = int (cell b x y)" and "cell b x y < nat (width b * height b div 8)"
proof -
  from assms have x: "0 \<le> x" "x < width b" "x < 2 ^ 31" and y: "0 \<le> y" "y < height b" "y < 2 ^ 31"
    and w: "0 \<le> width b" "width b < 2 ^ 31" "even (width b)" and h: "height b mod 4 = 0"
    by (auto simp: wf_buffer_def in_range_def)
  obtain w' where w': "width b = 2 * w'" using w(3) by (auto elim: evenE)
  obtain h' where h': "height b = 4 * h'" using h by (auto simp: mod_eq_0_iff_dvd)
  have xd: "0 \<le> x div 2" "x div 2 < w'" using x w' by auto
  have yd: "0 \<le> y div 4" "y div 4 \<le> h' - 1" using y h' by auto
  have w0: "0 \<le> w'" using xd by linarith
  have "project b x y = x div 2 + (width b div 2) * (y div 4)"
    using x y w by (simp add: project_def js_shr_small)
  moreover have nn: "0 \<le> x div 2 + (width b div 2) * (y div 4)" using xd yd w0 w' by simp
  ultimately show "project b x y = int (cell b x y)" by (simp add: cell_def)
  have "w' * (y div 4) \<le> w' * (h' - 1)" using yd w0 by (intro mult_left_mono) auto
  then have "x div 2 + w' * (y div 4) < w' * h'" using xd by (simp add: algebra_simps)
  moreover have "width b * height b div 8 = w' * h'" using w' h' by simp
  ultimately show "cell b x y < nat (width b * height b div 8)"
    using nn w' by (simp add: cell_def)
qed

lemma brailleMap_canonical:
  assumes "0 \<le> x" "x < 2 ^ 31" "0 \<le> y" "y < 2 ^ 31"
  shows "brailleMap ! nat (js_and y 3) ! nat (js_and x 1) = 2 ^ canonical_bit (x mod 2) (y mod 4)"
proof -
  have "y mod 4 = 0 \<or> y mod 4 = 1 \<or> y mod 4 = 2 \<or> y mod 4 = 3" by presburger
  moreover have "x mod 2 = 0 \<or> x mod 2 = 1" by presburger
  ultimately show ?thesis using assms
    by (auto simp: js_and_3 js_and_1 brailleMap_def canonical_bit_def)
qed

lemma setPixel_in_range:
  assumes "wf_buffer b" "in_range b x y"
  shows "setPixel b x y c =
     b\<lparr>pixelBuffer := (pixelBuffer b)[cell b x y :=
            pixelBuffer b ! cell b x y OR 2 ^ canonical_bit (x mod 2) (y mod 4)],
       foregroundBuffer := (foregroundBuffer b)[cell b x y := word_of_int c]\<rparr>"
proof -
  from assms have r: "0 \<le> x" "x < width b" "x < 2 ^ 31" "0 \<le> y" "y < height b" "y < 2 ^ 31"
    by (auto simp: wf_buffer_def in_range_def)
  have len: "cell b x y < length (pixelBuffer b)" "cell b x y < length (foregroundBuffer b)"
    using project_in_range(2)[OF assms] assms(1) by (simp_all add: wf_buffer_def)
  show ?thesis
    using r len
    by (simp add: setPixel_def locate_def project_in_range(1)[OF assms] brailleMap_canonical
        buf_or_def buf_set_def buf_get_def Let_def)
qed

lemma unsetPixel_in_range:
  assumes "wf_buffer b" "in_range b x y"
  shows "unsetPixel b x y =
     b\<lparr>pixelBuffer := (pixelBuffer b)[cell b x y :=
            pixelBuffer b ! cell b x y AND NOT (2 ^ canonical_bit (x mod 2) (y mod 4))]\<rparr>"
proof -
  from assms have r: "0 \<le> x" "x < width b" "x < 2 ^ 31" "0 \<le> y" "y < height b" "y < 2 ^ 31"
    by (auto simp: wf_buffer_def in_range_def)
  have len: "cell b x y < length (pixelBuffer b)"
    using project_in_range(2)[OF assms] assms(1) by (simp_all add: wf_buffer_def)
  show ?thesis
    using r len
    by (simp add: unsetPixel_def locate_def project_in_range(1)[OF assms] brailleMap_canonical
        buf_and_not_def buf_set_def buf_get_def Let_def)
qed

lemma setPixel_out_of_range: "\<not> in_range b x y \<Longrightarrow> setPixel b x y c = b"
  by (auto simp: setPixel_def locate_def in_range_def)

lemma wf_setPixel: "wf_buffer b \<Longrightarrow> wf_buffer (setPixel b x y c)"
  by (cases "in_range b x y") (simp_all add: setPixel_in_range setPixel_out_of_range wf_buffer_def)

text \<open>
  The constructor builds a buffer of the data model from an even width and a height
  that is a multiple of 4, and the operations keep it one.
\<close>

lemma wf_alloc_BrailleBuffer:
  "0 \<le> w \<Longrightarrow> w < 2 ^ 31 \<Longrightarrow> even w \<Longrightarrow> 0 \<le> h \<Longrightarrow> h < 2 ^ 31 \<Longrightarrow> h mod 4 = 0 \<Longrightarrow>
   w * h \<le> 8 * kMaxLength \<Longrightarrow>
   new_BrailleBuffer kMaxLength table w h = Inr (alloc_BrailleBuffer table w h) \<and>
   wf_buffer (alloc_BrailleBuffer table w h)"
  by (simp add: new_BrailleBuffer_def wf_buffer_def alloc_BrailleBuffer_def clear_def Let_def
      not_less)

lemma wf_unsetPixel: "wf_buffer b \<Longrightarrow> wf_buffer (unsetPixel b x y)"
  by (cases "in_range b x y")
    (simp_all add: unsetPixel_in_range wf_buffer_def, simp add: unsetPixel_def locate_def in_range_def)

lemma wf_setBackground: "wf_buffer b \<Longrightarrow> wf_buffer (setBackground b x y c)"
  by (simp add: setBackground_def wf_buffer_def buf_set_def)

lemma wf_setGlobalBackground: "wf_buffer b \<Longrightarrow> wf_buffer (setGlobalBackground b c)"
  by (simp add: setGlobalBackground_def wf_buffer_def)

lemma wf_clear: "wf_buffer b \<Longrightarrow> wf_buffer (clear b)"
  by (simp add: clear_def wf_buffer_def)

lemma in_range_setPixel: "in_range (setPixel b x' y' c) x y = in_range b x y"
  by (auto simp: setPixel_def locate_def in_range_def Let_def)

lemma cell_setPixel: "cell (setPixel b x' y' c) x y = cell b x y"
  by (auto simp: setPixel_def locate_def cell_def Let_def)

lemma byte_roundtrip: "0 \<le> c \<Longrightarrow> c < 256 \<Longrightarrow> uint (word_of_int c :: byte) = c"
  by (simp add: uint_word_of_int take_bit_eq_mod)

lemma or_and_not_bit: "((v::byte) OR 2 ^ k) AND NOT (2 ^ k) = v AND NOT (2 ^ k)"
  by (simp add: bit.conj_disj_distrib2)

lemma and_not_eq_iff: "((v::byte) AND NOT m = v) = (v AND m = 0)"
proof
  assume "v AND NOT m = v"
  then have "v AND m = (v AND NOT m) AND m" by simp
  also have "\<dots> = 0" by (simp add: and.assoc)
  finally show "v AND m = 0" .
next
  assume a: "v AND m = 0"
  have "v = v AND (m OR NOT m)" by simp
  also have "\<dots> = (v AND m) OR (v AND NOT m)" by (simp only: bit.conj_disj_distrib)
  finally show "v AND NOT m = v" using a by simp
qed

lemma and_not_bit_eq: "((v::byte) AND NOT (2 ^ k) = v) = (\<not> bit v k)"
  by (simp add: and_not_eq_iff and_exp_eq_0_iff_not_bit)

text \<open>
  C5. \<open>setPixel(x, y, c)\<close> with \<open>(x, y)\<close> outside \<open>[0, W) \<times> [0, H)\<close> returns the
  buffer unchanged. Otherwise, on a buffer of the data model, the cell index
  \<open>(x>>1) + (W>>1)*(y>>2)\<close> lies inside the arrays, the single bit of the canonical
  layout for \<open>(x mod 2, y mod 4)\<close> is ORed into \<open>pixel[i]\<close>, \<open>fg[i]\<close> becomes the
  byte \<open>c\<close> (the palette index \<open>c\<close> itself when \<open>0 \<le> c < 256\<close>), and nothing else
  of the buffer changes.
\<close>

theorem setPixel_spec:
  "(\<not> in_range b x y \<longrightarrow> setPixel b x y c = b) \<and>
   (wf_buffer b \<and> in_range b x y \<longrightarrow>
      project b x y = int (cell b x y) \<and>
      cell b x y < length (pixelBuffer b) \<and>
      cell b x y < length (foregroundBuffer b) \<and>
      setPixel b x y c =
        b\<lparr>pixelBuffer := (pixelBuffer b)[cell b x y :=
               pixelBuffer b ! cell b x y OR 2 ^ canonical_bit (x mod 2) (y mod 4)],
          foregroundBuffer := (foregroundBuffer b)[cell b x y := word_of_int c]\<rparr> \<and>
      (0 \<le> c \<and> c < 256 \<longrightarrow> uint (foregroundBuffer (setPixel b x y c) ! cell b x y) = c))"
proof (intro conjI impI)
  assume "\<not> in_range b x y"
  then show "setPixel b x y c = b" by (rule setPixel_out_of_range)
next
  assume "wf_buffer b \<and> in_range b x y"
  then have wf: "wf_buffer b" and r: "in_range b x y" by simp_all
  show "project b x y = int (cell b x y)" by (rule project_in_range(1)[OF wf r])
  show p: "cell b x y < length (pixelBuffer b)"
    using project_in_range(2)[OF wf r] wf by (simp add: wf_buffer_def)
  show f: "cell b x y < length (foregroundBuffer b)"
    using project_in_range(2)[OF wf r] wf by (simp add: wf_buffer_def)
  show "setPixel b x y c =
        b\<lparr>pixelBuffer := (pixelBuffer b)[cell b x y :=
               pixelBuffer b ! cell b x y OR 2 ^ canonical_bit (x mod 2) (y mod 4)],
          foregroundBuffer := (foregroundBuffer b)[cell b x y := word_of_int c]\<rparr>"
    by (rule setPixel_in_range[OF wf r])
  assume "0 \<le> c \<and> c < 256"
  then show "uint (foregroundBuffer (setPixel b x y c) ! cell b x y) = c"
    using f by (simp add: setPixel_in_range[OF wf r] byte_roundtrip)
qed

lemma wf_buffer_4x8: "wf_buffer buffer_4x8"
  by (simp add: buffer_4x8_def wf_buffer_def alloc_BrailleBuffer_def clear_def)

theorem setPixel_spec_witness:
  "wf_buffer buffer_4x8 \<and> in_range buffer_4x8 3 5 \<and> cell buffer_4x8 3 5 = 3 \<and>
   pixelBuffer (setPixel buffer_4x8 3 5 196) = [0, 0, 0, 0x10] \<and>
   foregroundBuffer (setPixel buffer_4x8 3 5 196) = [0, 0, 0, 196] \<and>
   backgroundBuffer (setPixel buffer_4x8 3 5 196) = [0, 0, 0, 0] \<and>
   \<not> in_range buffer_4x8 4 5 \<and> setPixel buffer_4x8 4 5 196 = buffer_4x8"
  using setPixel_spec [of buffer_4x8 3 5 196] setPixel_spec [of buffer_4x8 4 5 196]
    wf_buffer_4x8
  by (simp add: in_range_def cell_def canonical_bit_def buffer_4x8_def alloc_BrailleBuffer_def
      clear_def eval_nat_numeral)

text \<open>
  C8. For an in-range coordinate of a buffer of the data model, \<open>setPixel\<close> followed
  by \<open>unsetPixel\<close> at the same coordinate leaves in \<open>pixel[i]\<close> the prior value with
  the bit of that pixel cleared; this is the prior value exactly when the pixel was not
  set before.
\<close>

theorem setPixel_unsetPixel:
  assumes "wf_buffer b" and "in_range b x y"
  shows "pixelBuffer (unsetPixel (setPixel b x y c) x y) ! cell b x y =
           pixelBuffer b ! cell b x y AND NOT (2 ^ canonical_bit (x mod 2) (y mod 4)) \<and>
         ((pixelBuffer (unsetPixel (setPixel b x y c) x y) ! cell b x y = pixelBuffer b ! cell b x y)
            \<longleftrightarrow> \<not> bit (pixelBuffer b ! cell b x y) (canonical_bit (x mod 2) (y mod 4)))"
proof -
  have len: "cell b x y < length (pixelBuffer b)"
    using project_in_range(2)[OF assms] assms(1) by (simp add: wf_buffer_def)
  have wf': "wf_buffer (setPixel b x y c)" by (rule wf_setPixel[OF assms(1)])
  have r': "in_range (setPixel b x y c) x y" using assms(2) by (simp add: in_range_setPixel)
  have u: "unsetPixel (setPixel b x y c) x y =
      (setPixel b x y c)\<lparr>pixelBuffer := (pixelBuffer (setPixel b x y c))[cell b x y :=
         pixelBuffer (setPixel b x y c) ! cell b x y
           AND NOT (2 ^ canonical_bit (x mod 2) (y mod 4))]\<rparr>"
    using unsetPixel_in_range[OF wf' r'] by (simp only: cell_setPixel)
  have s: "pixelBuffer (setPixel b x y c) = (pixelBuffer b)[cell b x y :=
         pixelBuffer b ! cell b x y OR 2 ^ canonical_bit (x mod 2) (y mod 4)]"
    by (simp add: setPixel_in_range[OF assms])
  have "pixelBuffer (unsetPixel (setPixel b x y c) x y) ! cell b x y =
          (pixelBuffer b ! cell b x y OR 2 ^ canonical_bit (x mod 2) (y mod 4))
            AND NOT (2 ^ canonical_bit (x mod 2) (y mod 4))"
    using len by (simp add: u s)
  then have eq: "pixelBuffer (unsetPixel (setPixel b x y c) x y) ! cell b x y =
          pixelBuffer b ! cell b x y AND NOT (2 ^ canonical_bit (x mod 2) (y mod 4))"
    by (simp only: or_and_not_bit)
  show ?thesis unfolding eq by (simp add: and_not_bit_eq)
qed

theorem setPixel_unsetPixel_witness:
  "wf_buffer buffer_4x8 \<and> in_range buffer_4x8 3 5 \<and>
   pixelBuffer (unsetPixel (setPixel buffer_4x8 3 5 196) 3 5) ! cell buffer_4x8 3 5 =
     pixelBuffer buffer_4x8 ! cell buffer_4x8 3 5"
  using setPixel_unsetPixel [OF wf_buffer_4x8, of 3 5 196] wf_buffer_4x8
  by (simp add: in_range_def cell_def canonical_bit_def buffer_4x8_def alloc_BrailleBuffer_def
      clear_def eval_nat_numeral bit_iff_odd)

lemma wf_lit_buffer: "wf_buffer lit_buffer"
  unfolding lit_buffer_def
  by (rule wf_setPixel) (simp add: wf_buffer_def blank_buffer_def alloc_BrailleBuffer_def clear_def)

theorem setPixel_unsetPixel_counterexample:
  "wf_buffer lit_buffer \<and> in_range lit_buffer 0 0 \<and>
   pixelBuffer lit_buffer ! cell lit_buffer 0 0 = 1 \<and>
   pixelBuffer (unsetPixel (setPixel lit_buffer 0 0 1) 0 0) ! cell lit_buffer 0 0 = 0"
  using wf_lit_buffer
  by (simp add: lit_buffer_def blank_buffer_def alloc_BrailleBuffer_def clear_def setPixel_def unsetPixel_def
      locate_def project_def js_shr_def js_and_def to_int32_def brailleMap_def buf_or_def
      buf_and_not_def buf_set_def buf_get_def cell_def in_range_def)

subsection \<open>Frame emission\<close>

lemma sgrs_append: "sgrs (xs @ ys) = sgrs xs @ sgrs ys"
  by (induction xs rule: sgrs.induct) simp_all

lemma frame_inv_push_other:
  "frame_inv st \<Longrightarrow> sgrs [p] = [] \<Longrightarrow> frame_inv (st\<lparr>out := out st @ [p]\<rparr>)"
  by (simp add: frame_inv_def sgrs_append)

lemma frame_inv_skip: "frame_inv (st\<lparr>skip := k\<rparr>) = frame_inv st"
  by (simp add: frame_inv_def)

lemma frame_inv_push_sgr:
  "frame_inv st \<Longrightarrow> currentColor st \<noteq> Some c \<Longrightarrow>
   frame_inv (st\<lparr>out := out st @ [Sgr c], currentColor := Some c\<rparr>)"
  by (auto simp: frame_inv_def sgrs_append distinct_adj_append_iff split: if_splits)

lemma sgrs_cellGlyph: "sgrs [cellGlyph cfg b idx] = []"
  by (simp add: cellGlyph_def)

lemma frame_inv_frameCell:
  assumes "frame_inv st"
  shows "frame_inv (frameCell cfg sw b y x st)"
proof -
  define st1 where "st1 = (if frameIndex b y x \<noteq> Some 0 \<and> x = 0
                 then st\<lparr>out := out st @ [Delimiter (delimeter cfg)]\<rparr> else st)"
  define c where "c = cellColor b (frameIndex b y x)"
  define st2 where "st2 = (if currentColor st1 \<noteq> Some c
                 then st1\<lparr>out := out st1 @ [Sgr c], currentColor := Some c\<rparr>
                 else st1)"
  have i1: "frame_inv st1" using assms by (simp add: st1_def frame_inv_push_other)
  have i2: "frame_inv st2" using i1 by (simp add: st2_def frame_inv_push_sgr)
  have "frameCell cfg sw b y x st =
     (let char = (case frameIndex b y x of None \<Rightarrow> None | Some i \<Rightarrow> charBuffer b i)
      in if char \<noteq> None \<and> char \<noteq> Some [] then
           let st3 = st2\<lparr>skip := skip st2 + sw (the char) - 1\<rparr>
           in if 2 * (skip st3 + x) < width b
              then st3\<lparr>out := out st3 @ [Text (the char)]\<rparr> else st3
         else if skip st2 = 0 then st2\<lparr>out := out st2 @ [cellGlyph cfg b (frameIndex b y x)]\<rparr>
         else st2\<lparr>skip := skip st2 - 1\<rparr>)"
    by (simp add: frameCell_def st1_def st2_def c_def Let_def)
  moreover have "frame_inv (st2\<lparr>skip := k\<rparr>)" for k using i2 by (simp add: frame_inv_skip)
  moreover have "frame_inv (st2\<lparr>skip := k, out := out st2 @ [Text t]\<rparr>)" for k t
    using frame_inv_push_other[of "st2\<lparr>skip := k\<rparr>" "Text t"] i2 by (simp add: frame_inv_skip)
  moreover have "frame_inv (st2\<lparr>out := out st2 @ [cellGlyph cfg b (frameIndex b y x)]\<rparr>)"
    using i2 by (simp add: frame_inv_push_other sgrs_cellGlyph)
  ultimately show ?thesis by (simp add: Let_def)
qed

lemma frame_inv_fold:
  "(\<And>x s. frame_inv s \<Longrightarrow> frame_inv (f x s)) \<Longrightarrow> frame_inv st \<Longrightarrow> frame_inv (fold f xs st)"
  by (induction xs arbitrary: st) simp_all

lemma frame_inv_frameRow: "frame_inv st \<Longrightarrow> frame_inv (frameRow cfg sw b y st)"
  unfolding frameRow_def
proof (rule frame_inv_fold)
  show "frame_inv (frameCell cfg sw b y x s)" if "frame_inv s" for x s
    using that by (rule frame_inv_frameCell)
  show "frame_inv st \<Longrightarrow> frame_inv (st\<lparr>skip := 0\<rparr>)" by (simp add: frame_inv_skip)
qed

lemma frame_inv_frameCells: "frame_inv (frameCells cfg sw b)"
  unfolding frameCells_def
proof (rule frame_inv_fold)
  show "frame_inv (frameRow cfg sw b y s)" if "frame_inv s" for y s
    using that by (rule frame_inv_frameRow)
  show "frame_inv \<lparr>out = [], currentColor = None, skip = 0\<rparr>" by (simp add: frame_inv_def)
qed

text \<open>
  C6. The SGR sequences that \<open>frame\<close> emits for the cells are state-compressed: no two
  consecutive ones are equal. The frame ends with a reset that is emitted whatever the
  last sequence was, so the SGR sequences of the whole frame have two equal neighbours
  exactly when the last sequence emitted for a cell is the reset.
\<close>

theorem frame_sgr_compression:
  "frame cfg sw b = out (frameCells cfg sw b) @ [Sgr termReset, Delimiter (delimeter cfg)] \<and>
   distinct_adj (sgrs (out (frameCells cfg sw b))) \<and>
   (distinct_adj (sgrs (frame cfg sw b)) \<longleftrightarrow> currentColor (frameCells cfg sw b) \<noteq> Some termReset)"
  using frame_inv_frameCells [of cfg sw b]
  by (auto simp: frame_def frame_inv_def sgrs_append distinct_adj_append_iff split: if_splits)

lemma frame_tinted_buffer:
  "frame cfg0 width1 tinted_buffer =
     [Sgr (ESC # ''[38;5;5;48;5;3m''), CharCode 0x2801, Sgr termReset,
      Delimiter [CHR 0x0A, CHR 0x0D]]"
  by code_simp

lemma currentColor_tinted_buffer:
  "currentColor (frameCells cfg0 width1 tinted_buffer) = Some (ESC # ''[38;5;5;48;5;3m'')"
  by code_simp

theorem frame_sgr_compression_witness:
  "distinct_adj (sgrs (frame cfg0 width1 tinted_buffer)) \<and>
   sgrs (frame cfg0 width1 tinted_buffer) = [ESC # ''[38;5;5;48;5;3m'', termReset]"
  using frame_sgr_compression [of cfg0 width1 tinted_buffer]
  by (simp add: currentColor_tinted_buffer frame_tinted_buffer termReset_def)

lemma frame_blank_buffer:
  "frame cfg0 width1 blank_buffer =
     [Sgr termReset, CharCode 0x2800, Sgr termReset, Delimiter [CHR 0x0A, CHR 0x0D]]"
  by code_simp

theorem frame_sgr_compression_counterexample:
  "sgrs (frame cfg0 width1 blank_buffer) = [termReset, termReset] \<and>
   \<not> distinct_adj (sgrs (frame cfg0 width1 blank_buffer))"
  by (simp add: frame_blank_buffer)

text \<open>
  C2. \<open>_termColor\<close> combines the cell background with the global background by a
  bitwise OR. For a cell with foreground 5 and background 1 on a global background 2,
  the sequence built is \<open>CSI 38;5;5;48;5;3 m\<close>: the background index 3 is neither the
  cell's nor the global one.
\<close>

theorem termColor_ors_backgrounds:
  "idx_get (foregroundBuffer tinted_buffer) (Some 0) = Some 5 \<and>
   idx_get (backgroundBuffer tinted_buffer) (Some 0) = Some 1 \<and>
   globalBackground tinted_buffer = Some 2 \<and>
   termColor tinted_buffer (Some 5) (Some 1) = ESC # ''[38;5;5;48;5;3m'' \<and>
   cellColor tinted_buffer (frameIndex tinted_buffer 0 0) = ESC # ''[38;5;5;48;5;3m'' \<and>
   sgrs (frame cfg0 width1 tinted_buffer) = [ESC # ''[38;5;5;48;5;3m'', termReset]"
  by code_simp

lemma frameIndex_cell:
  assumes "wf_buffer b" "in_range b x y"
  shows "frameIndex b (y div 4) (x div 2) = Some (project b x y)"
proof -
  from assms have w: "even (width b)" by (simp add: wf_buffer_def)
  then obtain w' where w': "width b = 2 * w'" by (auto elim: evenE)
  have "project b x y = x div 2 + (width b div 2) * (y div 4)"
    using assms by (simp add: project_def js_shr_small wf_buffer_def in_range_def)
  then show ?thesis using w' by (simp add: frameIndex_def)
qed

lemma termColor_no_foreground:
  "termColor b None bg =
     (if js_or (null_to_0 bg) (null_to_0 (globalBackground b)) \<noteq> 0
      then ESC # ''[39;48;5;'' @ show_int (js_or (null_to_0 bg) (null_to_0 (globalBackground b))) @ ''m''
      else termReset)"
  by (simp add: termColor_def null_to_0_def Let_def)

lemma cellColor_zero_byte:
  "(idx_get (foregroundBuffer b) idx = Some 0 \<longrightarrow>
      cellColor b idx = termColor b None (or_null (idx_get (backgroundBuffer b) idx))) \<and>
   (idx_get (backgroundBuffer b) idx = Some 0 \<longrightarrow>
      cellColor b idx = termColor b (or_null (idx_get (foregroundBuffer b) idx)) None) \<and>
   termColor b None bg =
     (if js_or (null_to_0 bg) (null_to_0 (globalBackground b)) \<noteq> 0
      then ESC # ''[39;48;5;'' @ show_int (js_or (null_to_0 bg) (null_to_0 (globalBackground b))) @ ''m''
      else termReset) \<and>
   (wf_buffer b \<and> in_range b x y \<longrightarrow>
      frameIndex (setPixel b x y 0) (y div 4) (x div 2) = Some (project b x y) \<and>
      idx_get (foregroundBuffer (setPixel b x y 0)) (Some (project b x y)) = Some 0 \<and>
      cellColor (setPixel b x y 0) (Some (project b x y)) =
        termColor b None (or_null (idx_get (backgroundBuffer b) (Some (project b x y)))))"
proof (intro conjI impI)
  show "termColor b None bg =
     (if js_or (null_to_0 bg) (null_to_0 (globalBackground b)) \<noteq> 0
      then ESC # ''[39;48;5;'' @ show_int (js_or (null_to_0 bg) (null_to_0 (globalBackground b))) @ ''m''
      else termReset)" by (rule termColor_no_foreground)
next
  assume "idx_get (foregroundBuffer b) idx = Some 0"
  then show "cellColor b idx = termColor b None (or_null (idx_get (backgroundBuffer b) idx))"
    by (simp add: cellColor_def or_null_def)
next
  assume "idx_get (backgroundBuffer b) idx = Some 0"
  then show "cellColor b idx = termColor b (or_null (idx_get (foregroundBuffer b) idx)) None"
    by (simp add: cellColor_def or_null_def)
next
  assume a: "wf_buffer b \<and> in_range b x y"
  then have wf: "wf_buffer b" and r: "in_range b x y" by simp_all
  have wf': "wf_buffer (setPixel b x y 0)" by (rule wf_setPixel[OF wf])
  have r': "in_range (setPixel b x y 0) x y" using r by (simp add: in_range_setPixel)
  have p: "project (setPixel b x y 0) x y = project b x y"
    by (simp add: project_in_range(1)[OF wf' r'] project_in_range(1)[OF wf r] cell_setPixel)
  show "frameIndex (setPixel b x y 0) (y div 4) (x div 2) = Some (project b x y)"
    using frameIndex_cell[OF wf' r'] p by simp
  have len: "cell b x y < length (foregroundBuffer b)"
    using project_in_range(2)[OF wf r] wf by (simp add: wf_buffer_def)
  show z: "idx_get (foregroundBuffer (setPixel b x y 0)) (Some (project b x y)) = Some 0"
    using len by (simp add: idx_get_def buf_get_def project_in_range(1)[OF wf r]
        setPixel_in_range[OF wf r])
  have bg: "backgroundBuffer (setPixel b x y 0) = backgroundBuffer b"
    by (simp add: setPixel_in_range[OF wf r])
  have gb: "globalBackground (setPixel b x y 0) = globalBackground b"
    by (simp add: setPixel_in_range[OF wf r])
  show "cellColor (setPixel b x y 0) (Some (project b x y)) =
        termColor b None (or_null (idx_get (backgroundBuffer b) (Some (project b x y))))"
    using z by (simp add: cellColor_def bg or_null_def termColor_def gb)
qed

lemma out_frameCell: "\<exists>ps. out (frameCell cfg sw b y x st) = out st @ ps"
  by (simp add: frameCell_def Let_def)

lemma out_fold:
  "(\<And>x s. \<exists>ps. out (f x s) = out s @ ps) \<Longrightarrow> \<exists>ps. out (fold f xs st) = out st @ ps"
proof (induction xs arbitrary: st)
  case Nil
  then show ?case by simp
next
  case (Cons a xs)
  from Cons.prems obtain ps where a: "out (f a st) = out st @ ps" by blast
  from Cons.IH[OF Cons.prems, of "f a st"] obtain qs where
    "out (fold f xs (f a st)) = out (f a st) @ qs" by blast
  with a show ?case by simp
qed

lemma out_frameRow: "\<exists>ps. out (frameRow cfg sw b y st) = out st @ ps"
proof -
  have "\<exists>ps. out (fold (frameCell cfg sw b y) [0 .. (width b - 1) div 2] (st\<lparr>skip := 0\<rparr>)) =
      out (st\<lparr>skip := 0\<rparr>) @ ps"
    by (rule out_fold) (rule out_frameCell)
  then show ?thesis by (simp add: frameRow_def)
qed

lemma currentColor_frameCell:
  "currentColor (frameCell cfg sw b y x st) = Some (cellColor b (frameIndex b y x))"
  by (simp add: frameCell_def Let_def)

lemma frameCells_split:
  assumes "0 \<le> y" "4 * y < height b" "0 \<le> x" "2 * x < width b"
  shows "frameCells cfg sw b =
     fold (frameRow cfg sw b) [y + 1 .. (height b - 1) div 4]
       (fold (frameCell cfg sw b y) [x + 1 .. (width b - 1) div 2] (afterCell cfg sw b y x))"
proof -
  have y: "y \<le> (height b - 1) div 4" using assms(2) by linarith
  have x: "x \<le> (width b - 1) div 2" using assms(4) by linarith
  have ys: "[0 .. (height b - 1) div 4] = [0 .. y - 1] @ y # [y + 1 .. (height b - 1) div 4]"
    using assms(1) y by (rule upto_split3)
  have xs: "[0 .. (width b - 1) div 2] = [0 .. x - 1] @ x # [x + 1 .. (width b - 1) div 2]"
    using assms(3) x by (rule upto_split3)
  show ?thesis
    by (simp add: frameCells_def ys frameRow_def[of cfg sw b y] xs afterCell_def stateBefore_def)
qed

lemma frame_afterCell:
  assumes "0 \<le> y" "4 * y < height b" "0 \<le> x" "2 * x < width b"
  shows "\<exists>rest. frame cfg sw b = out (afterCell cfg sw b y x) @ rest"
proof -
  have "\<exists>ps. out (fold (frameCell cfg sw b y) [x + 1 .. (width b - 1) div 2] (afterCell cfg sw b y x))
      = out (afterCell cfg sw b y x) @ ps"
    by (rule out_fold) (rule out_frameCell)
  then obtain ps where ps: "out (fold (frameCell cfg sw b y) [x + 1 .. (width b - 1) div 2]
      (afterCell cfg sw b y x)) = out (afterCell cfg sw b y x) @ ps" by blast
  have "\<exists>qs. out (fold (frameRow cfg sw b) [y + 1 .. (height b - 1) div 4]
       (fold (frameCell cfg sw b y) [x + 1 .. (width b - 1) div 2] (afterCell cfg sw b y x)))
      = out (fold (frameCell cfg sw b y) [x + 1 .. (width b - 1) div 2] (afterCell cfg sw b y x)) @ qs"
    by (rule out_fold) (rule out_frameRow)
  then obtain qs where "out (frameCells cfg sw b) = out (afterCell cfg sw b y x) @ ps @ qs"
    using ps by (auto simp: frameCells_split[OF assms])
  then show ?thesis by (simp add: frame_def)
qed

lemma frame_inv_stateBefore: "frame_inv (stateBefore cfg sw b y x)"
  unfolding stateBefore_def
proof (rule frame_inv_fold)
  show "frame_inv (frameCell cfg sw b y x' s)" if "frame_inv s" for x' s
    using that by (rule frame_inv_frameCell)
  have "frame_inv (fold (frameRow cfg sw b) [0 .. y - 1] \<lparr>out = [], currentColor = None, skip = 0\<rparr>)"
  proof (rule frame_inv_fold)
    show "frame_inv (frameRow cfg sw b y' s)" if "frame_inv s" for y' s
      using that by (rule frame_inv_frameRow)
    show "frame_inv \<lparr>out = [], currentColor = None, skip = 0\<rparr>" by (simp add: frame_inv_def)
  qed
  then show "frame_inv ((fold (frameRow cfg sw b) [0 .. y - 1]
      \<lparr>out = [], currentColor = None, skip = 0\<rparr>)\<lparr>skip := 0\<rparr>)"
    by (simp add: frame_inv_skip)
qed

lemma last_sgr_afterCell:
  "sgrs (out (afterCell cfg sw b y x)) \<noteq> [] \<and>
   last (sgrs (out (afterCell cfg sw b y x))) = cellColor b (frameIndex b y x)"
proof -
  have "frame_inv (afterCell cfg sw b y x)"
    unfolding afterCell_def by (rule frame_inv_frameCell) (rule frame_inv_stateBefore)
  moreover have "currentColor (afterCell cfg sw b y x) = Some (cellColor b (frameIndex b y x))"
    by (simp add: afterCell_def currentColor_frameCell)
  ultimately show ?thesis by (auto simp: frame_inv_def split: if_splits)
qed

lemma skip_frameCell_no_chars:
  "charBuffer b = (\<lambda>_. None) \<Longrightarrow> skip st = 0 \<Longrightarrow> skip (frameCell cfg sw b y x st) = 0"
  by (simp add: frameCell_def Let_def split: option.splits)

lemma skip_fold_no_chars:
  "charBuffer b = (\<lambda>_. None) \<Longrightarrow> skip st = 0 \<Longrightarrow>
   skip (fold (frameCell cfg sw b y) xs st) = 0"
  by (induction xs arbitrary: st) (simp_all add: skip_frameCell_no_chars)

lemma last_out_frameCell_no_chars:
  "charBuffer b = (\<lambda>_. None) \<Longrightarrow> skip st = 0 \<Longrightarrow>
   last (out (frameCell cfg sw b y x st)) = cellGlyph cfg b (frameIndex b y x)"
  by (simp add: frameCell_def Let_def split: option.splits)

lemma last_out_afterCell:
  assumes "charBuffer b = (\<lambda>_. None)"
  shows "last (out (afterCell cfg sw b y x)) = cellGlyph cfg b (frameIndex b y x)"
proof -
  have "skip (stateBefore cfg sw b y x) = 0"
    unfolding stateBefore_def by (rule skip_fold_no_chars[OF assms]) simp
  then show ?thesis unfolding afterCell_def by (rule last_out_frameCell_no_chars[OF assms])
qed

lemma size_setPixel: "width (setPixel b x y c) = width b \<and> height (setPixel b x y c) = height b"
  by (simp add: setPixel_def locate_def Let_def)

text \<open>
  C10. For every cell of the grid, in column \<open>x\<close> of row \<open>y\<close>, the loops of
  \<open>frame\<close> pass through the state in which that cell is done, the frame starts with
  what has been emitted by then, and the last SGR sequence emitted by then is the one
  built for the cell. For a cell whose foreground byte is 0
  that sequence is built with a \<open>null\<close> foreground: it is \<open>CSI 39;48;5;BG m\<close>, or
  the reset when there is no background either. For a cell whose background byte is 0
  it is built with a \<open>null\<close> cell background. In a buffer without characters the last
  piece emitted by then is the glyph of the cell. After \<open>setPixel(px, py, 0)\<close> at an
  in-range coordinate of a buffer of the data model, the cell of that pixel, in column
  \<open>px div 2\<close> of row \<open>py div 4\<close>, has the foreground byte 0 and gets the sequence
  without foreground.
\<close>

theorem frame_zero_byte:
  "(0 \<le> y \<and> 4 * y < height b \<and> 0 \<le> x \<and> 2 * x < width b \<longrightarrow>
      frameCells cfg sw b =
        fold (frameRow cfg sw b) [y + 1 .. (height b - 1) div 4]
          (fold (frameCell cfg sw b y) [x + 1 .. (width b - 1) div 2] (afterCell cfg sw b y x)) \<and>
      (\<exists>rest. frame cfg sw b = out (afterCell cfg sw b y x) @ rest) \<and>
      sgrs (out (afterCell cfg sw b y x)) \<noteq> [] \<and>
      (idx_get (foregroundBuffer b) (frameIndex b y x) = Some 0 \<longrightarrow>
         last (sgrs (out (afterCell cfg sw b y x))) =
           termColor b None (or_null (idx_get (backgroundBuffer b) (frameIndex b y x))) \<and>
         last (sgrs (out (afterCell cfg sw b y x))) =
           (if js_or (null_to_0 (or_null (idx_get (backgroundBuffer b) (frameIndex b y x))))
                     (null_to_0 (globalBackground b)) \<noteq> 0
            then ESC # ''[39;48;5;'' @
                 show_int (js_or (null_to_0 (or_null (idx_get (backgroundBuffer b) (frameIndex b y x))))
                                 (null_to_0 (globalBackground b))) @ ''m''
            else termReset)) \<and>
      (idx_get (backgroundBuffer b) (frameIndex b y x) = Some 0 \<longrightarrow>
         last (sgrs (out (afterCell cfg sw b y x))) =
           termColor b (or_null (idx_get (foregroundBuffer b) (frameIndex b y x))) None) \<and>
      (charBuffer b = (\<lambda>_. None) \<longrightarrow>
         last (out (afterCell cfg sw b y x)) = cellGlyph cfg b (frameIndex b y x))) \<and>
   (wf_buffer b \<and> in_range b px py \<longrightarrow>
      (\<exists>rest. frame cfg sw (setPixel b px py 0) =
         out (afterCell cfg sw (setPixel b px py 0) (py div 4) (px div 2)) @ rest) \<and>
      frameIndex (setPixel b px py 0) (py div 4) (px div 2) = Some (project b px py) \<and>
      idx_get (foregroundBuffer (setPixel b px py 0)) (Some (project b px py)) = Some 0 \<and>
      last (sgrs (out (afterCell cfg sw (setPixel b px py 0) (py div 4) (px div 2)))) =
        termColor b None (or_null (idx_get (backgroundBuffer b) (Some (project b px py)))))"
proof (intro conjI impI)
  assume g: "0 \<le> y \<and> 4 * y < height b \<and> 0 \<le> x \<and> 2 * x < width b"
  then show "\<exists>rest. frame cfg sw b = out (afterCell cfg sw b y x) @ rest"
    by (intro frame_afterCell) simp_all
  show "frameCells cfg sw b =
        fold (frameRow cfg sw b) [y + 1 .. (height b - 1) div 4]
          (fold (frameCell cfg sw b y) [x + 1 .. (width b - 1) div 2] (afterCell cfg sw b y x))"
    using g by (intro frameCells_split) simp_all
  show "sgrs (out (afterCell cfg sw b y x)) \<noteq> []"
    using last_sgr_afterCell by blast
  show "last (out (afterCell cfg sw b y x)) = cellGlyph cfg b (frameIndex b y x)"
    if "charBuffer b = (\<lambda>_. None)"
    using that by (rule last_out_afterCell)
  show "last (sgrs (out (afterCell cfg sw b y x))) =
           termColor b (or_null (idx_get (foregroundBuffer b) (frameIndex b y x))) None"
    if "idx_get (backgroundBuffer b) (frameIndex b y x) = Some 0"
    using that last_sgr_afterCell[of cfg sw b y x] cellColor_zero_byte[of b "frameIndex b y x"]
    by simp
  assume f: "idx_get (foregroundBuffer b) (frameIndex b y x) = Some 0"
  show l: "last (sgrs (out (afterCell cfg sw b y x))) =
           termColor b None (or_null (idx_get (backgroundBuffer b) (frameIndex b y x)))"
    using f last_sgr_afterCell[of cfg sw b y x] cellColor_zero_byte[of b "frameIndex b y x"]
    by simp
  show "last (sgrs (out (afterCell cfg sw b y x))) =
           (if js_or (null_to_0 (or_null (idx_get (backgroundBuffer b) (frameIndex b y x))))
                     (null_to_0 (globalBackground b)) \<noteq> 0
            then ESC # ''[39;48;5;'' @
                 show_int (js_or (null_to_0 (or_null (idx_get (backgroundBuffer b) (frameIndex b y x))))
                                 (null_to_0 (globalBackground b))) @ ''m''
            else termReset)"
    unfolding l by (rule termColor_no_foreground)
next
  assume a: "wf_buffer b \<and> in_range b px py"
  then have wf: "wf_buffer b" and r: "in_range b px py" by simp_all
  from r have g: "0 \<le> py div 4" "4 * (py div 4) < height (setPixel b px py 0)"
      "0 \<le> px div 2" "2 * (px div 2) < width (setPixel b px py 0)"
    by (auto simp: in_range_def size_setPixel)
  show "\<exists>rest. frame cfg sw (setPixel b px py 0) =
         out (afterCell cfg sw (setPixel b px py 0) (py div 4) (px div 2)) @ rest"
    by (rule frame_afterCell[OF g])
  note z = cellColor_zero_byte[of b _ _ px py]
  show i: "frameIndex (setPixel b px py 0) (py div 4) (px div 2) = Some (project b px py)"
    using z a by blast
  show "idx_get (foregroundBuffer (setPixel b px py 0)) (Some (project b px py)) = Some 0"
    using z a by blast
  have "cellColor (setPixel b px py 0) (Some (project b px py)) =
        termColor b None (or_null (idx_get (backgroundBuffer b) (Some (project b px py))))"
    using z a by blast
  then show "last (sgrs (out (afterCell cfg sw (setPixel b px py 0) (py div 4) (px div 2)))) =
        termColor b None (or_null (idx_get (backgroundBuffer b) (Some (project b px py))))"
    using last_sgr_afterCell[of cfg sw "setPixel b px py 0" "py div 4" "px div 2"] i by simp
qed

lemma frame_examples:
  "frame cfg0 width1 blank_buffer =
     [Sgr termReset, CharCode 0x2800, Sgr termReset, Delimiter [CHR 0x0A, CHR 0x0D]] \<and>
   out (afterCell cfg0 width1 blank_buffer 0 0) = [Sgr termReset, CharCode 0x2800] \<and>
   frame cfg0 width1 (setPixel backed_buffer 0 0 0) =
     [Sgr (ESC # ''[39;48;5;4m''), CharCode 0x2801, Sgr termReset, Delimiter [CHR 0x0A, CHR 0x0D]] \<and>
   out (afterCell cfg0 width1 (setPixel backed_buffer 0 0 0) 0 0) =
     [Sgr (ESC # ''[39;48;5;4m''), CharCode 0x2801]"
  by code_simp

lemma blank_buffer_facts:
  "height blank_buffer = 4 \<and> width blank_buffer = 2 \<and>
   idx_get (foregroundBuffer blank_buffer) (frameIndex blank_buffer 0 0) = Some 0 \<and>
   idx_get (backgroundBuffer blank_buffer) (frameIndex blank_buffer 0 0) = Some 0 \<and>
   idx_get (backgroundBuffer backed_buffer) (Some (project backed_buffer 0 0)) = Some 4 \<and>
   cellGlyph cfg0 blank_buffer (frameIndex blank_buffer 0 0) = CharCode 0x2800 \<and>
   termColor blank_buffer None None = termReset \<and>
   termColor backed_buffer None (Some 4) = ESC # ''[39;48;5;4m''"
  by code_simp

lemma charBuffer_blank_buffer: "charBuffer blank_buffer = (\<lambda>_. None)"
  by (simp add: blank_buffer_def alloc_BrailleBuffer_def clear_def)

lemma wf_backed_buffer: "wf_buffer backed_buffer \<and> in_range backed_buffer 0 0"
proof -
  have "wf_buffer blank_buffer"
    by (simp add: wf_buffer_def blank_buffer_def alloc_BrailleBuffer_def clear_def)
  then have "wf_buffer backed_buffer"
    unfolding backed_buffer_def by (rule wf_setBackground)
  moreover have "in_range backed_buffer 0 0"
    by (simp add: in_range_def backed_buffer_def setBackground_def blank_buffer_def
        alloc_BrailleBuffer_def clear_def)
  ultimately show ?thesis by simp
qed

theorem frame_zero_byte_witness:
  "0 \<le> (0::int) \<and> 4 * 0 < height blank_buffer \<and> 2 * 0 < width blank_buffer \<and>
   idx_get (foregroundBuffer blank_buffer) (frameIndex blank_buffer 0 0) = Some 0 \<and>
   idx_get (backgroundBuffer blank_buffer) (frameIndex blank_buffer 0 0) = Some 0 \<and>
   charBuffer blank_buffer = (\<lambda>_. None) \<and>
   last (sgrs (out (afterCell cfg0 width1 blank_buffer 0 0))) = termReset \<and>
   last (out (afterCell cfg0 width1 blank_buffer 0 0)) = CharCode 0x2800 \<and>
   wf_buffer backed_buffer \<and> in_range backed_buffer 0 0 \<and>
   last (sgrs (out (afterCell cfg0 width1 (setPixel backed_buffer 0 0 0) 0 0))) = ESC # ''[39;48;5;4m'' \<and>
   frame cfg0 width1 (setPixel backed_buffer 0 0 0) =
     [Sgr (ESC # ''[39;48;5;4m''), CharCode 0x2801, Sgr termReset, Delimiter [CHR 0x0A, CHR 0x0D]]"
proof -
  note f = blank_buffer_facts
  note t1 = frame_zero_byte [of 0 blank_buffer 0 cfg0 width1]
  have g: "0 \<le> (0::int) \<and> 4 * 0 < height blank_buffer \<and> 0 \<le> (0::int) \<and> 2 * 0 < width blank_buffer"
    using f by simp
  have s1: "last (sgrs (out (afterCell cfg0 width1 blank_buffer 0 0))) = termReset"
    using t1 g f by (simp add: or_null_def)
  have o1: "last (out (afterCell cfg0 width1 blank_buffer 0 0)) = CharCode 0x2800"
    using t1 g f charBuffer_blank_buffer by simp
  note t2 = frame_zero_byte [of _ backed_buffer _ cfg0 width1 0 0]
  have s2: "last (sgrs (out (afterCell cfg0 width1 (setPixel backed_buffer 0 0 0) 0 0))) =
      ESC # ''[39;48;5;4m''"
    using t2 wf_backed_buffer f by (simp add: or_null_def)
  show ?thesis
    using g f charBuffer_blank_buffer s1 o1 wf_backed_buffer s2 frame_examples by simp
qed

section \<open>Properties of LabelBuffer\<close>

lemma writeIfPossible_unfold:
  "writeIfPossible sw lb text x y f margin0 =
     (if collides (tree lb)
           \<lparr>minX = of_int \<lfloor>x / 2\<rfloor>, minY = of_int \<lfloor>y / 4\<rfloor>,
            maxX = of_int \<lfloor>x / 2\<rfloor> + of_int (sw text), maxY = of_int \<lfloor>y / 4\<rfloor>\<rparr>
      then (ReturnedFalse, lb)
      else (ReturnedTree,
            lb\<lparr>tree := tree lb @
              [\<lparr>minX = of_int \<lfloor>x / 2\<rfloor> - margin_or_default lb margin0,
                minY = of_int \<lfloor>y / 4\<rfloor> - margin_or_default lb margin0 / 2,
                maxX = of_int \<lfloor>x / 2\<rfloor> + margin_or_default lb margin0 + of_int (sw text),
                maxY = of_int \<lfloor>y / 4\<rfloor> + margin_or_default lb margin0 / 2,
                feature = Some f\<rparr>]\<rparr>))"
  by (simp add: writeIfPossible_def hasSpace_def calculateArea_def label_project_def Let_def
      BBox.extend_def Item.fields_def)

lemma collidesI: "item \<in> set t \<Longrightarrow> intersects bbox item \<Longrightarrow> collides t bbox"
  by (auto simp: collides_def list_ex_iff)

text \<open>
  C4. With \<open>(X, Y) = (floor(x/2), floor(y/4))\<close> and \<open>m\<close> the margin of the call, or
  the margin of the buffer when the call gives none or 0: \<open>writeIfPossible\<close> tests the
  rectangle without margin, \<open>[X, X+width(text)] \<times> [Y, Y]\<close>, against the stored
  rectangles. It returns false and leaves the tree as it is when that rectangle
  collides with a stored one; otherwise it inserts
  \<open>[X-m, X+m+width(text)] \<times> [Y-m/2, Y+m/2]\<close> with the feature and returns the tree.
  Stored rectangles stay in the tree, so no later call whose rectangle without margin
  intersects a stored rectangle is accepted.
\<close>

theorem writeIfPossible_spec:
  "writeIfPossible sw lb text x y f margin0 =
     (if collides (tree lb)
           \<lparr>minX = of_int \<lfloor>x / 2\<rfloor>, minY = of_int \<lfloor>y / 4\<rfloor>,
            maxX = of_int \<lfloor>x / 2\<rfloor> + of_int (sw text), maxY = of_int \<lfloor>y / 4\<rfloor>\<rparr>
      then (ReturnedFalse, lb)
      else (ReturnedTree,
            lb\<lparr>tree := tree lb @
              [\<lparr>minX = of_int \<lfloor>x / 2\<rfloor> - margin_or_default lb margin0,
                minY = of_int \<lfloor>y / 4\<rfloor> - margin_or_default lb margin0 / 2,
                maxX = of_int \<lfloor>x / 2\<rfloor> + margin_or_default lb margin0 + of_int (sw text),
                maxY = of_int \<lfloor>y / 4\<rfloor> + margin_or_default lb margin0 / 2,
                feature = Some f\<rparr>]\<rparr>)) \<and>
   (\<forall>item \<in> set (tree lb).
      intersects \<lparr>minX = of_int \<lfloor>x / 2\<rfloor>, minY = of_int \<lfloor>y / 4\<rfloor>,
                  maxX = of_int \<lfloor>x / 2\<rfloor> + of_int (sw text), maxY = of_int \<lfloor>y / 4\<rfloor>\<rparr> item
      \<longrightarrow> writeIfPossible sw lb text x y f margin0 = (ReturnedFalse, lb)) \<and>
   set (tree lb) \<subseteq> set (tree (snd (writeIfPossible sw lb text x y f margin0)))"
proof (intro conjI ballI impI)
  show "writeIfPossible sw lb text x y f margin0 =
     (if collides (tree lb)
           \<lparr>minX = of_int \<lfloor>x / 2\<rfloor>, minY = of_int \<lfloor>y / 4\<rfloor>,
            maxX = of_int \<lfloor>x / 2\<rfloor> + of_int (sw text), maxY = of_int \<lfloor>y / 4\<rfloor>\<rparr>
      then (ReturnedFalse, lb)
      else (ReturnedTree,
            lb\<lparr>tree := tree lb @
              [\<lparr>minX = of_int \<lfloor>x / 2\<rfloor> - margin_or_default lb margin0,
                minY = of_int \<lfloor>y / 4\<rfloor> - margin_or_default lb margin0 / 2,
                maxX = of_int \<lfloor>x / 2\<rfloor> + margin_or_default lb margin0 + of_int (sw text),
                maxY = of_int \<lfloor>y / 4\<rfloor> + margin_or_default lb margin0 / 2,
                feature = Some f\<rparr>]\<rparr>))"
    by (rule writeIfPossible_unfold)
next
  fix item
  assume "item \<in> set (tree lb)"
    and "intersects \<lparr>minX = of_int \<lfloor>x / 2\<rfloor>, minY = of_int \<lfloor>y / 4\<rfloor>,
                  maxX = of_int \<lfloor>x / 2\<rfloor> + of_int (sw text), maxY = of_int \<lfloor>y / 4\<rfloor>\<rparr> item"
  then have "collides (tree lb) \<lparr>minX = of_int \<lfloor>x / 2\<rfloor>, minY = of_int \<lfloor>y / 4\<rfloor>,
                  maxX = of_int \<lfloor>x / 2\<rfloor> + of_int (sw text), maxY = of_int \<lfloor>y / 4\<rfloor>\<rparr>"
    by (rule collidesI)
  then show "writeIfPossible sw lb text x y f margin0 = (ReturnedFalse, lb)"
    by (simp add: writeIfPossible_unfold)
next
  show "set (tree lb) \<subseteq> set (tree (snd (writeIfPossible sw lb text x y f margin0)))"
    by (auto simp: writeIfPossible_unfold)
qed

lemma tree_one_label:
  "tree one_label = [\<lparr>minX = -5, minY = -5/2, maxX = 6, maxY = 5/2, feature = Some 1\<rparr>]"
  by code_simp

theorem writeIfPossible_spec_witness:
  "fst (writeIfPossible ascii_width new_LabelBuffer ''a'' 0 0 (1::nat) (Some 5)) = ReturnedTree \<and>
   tree one_label = [\<lparr>minX = -5, minY = -5/2, maxX = 6, maxY = 5/2, feature = Some 1\<rparr>] \<and>
   intersects \<lparr>minX = 6, minY = 0, maxX = 7, maxY = 0\<rparr> (hd (tree one_label)) \<and>
   writeIfPossible ascii_width one_label ''a'' 12 0 2 (Some 5) = (ReturnedFalse, one_label)"
  using writeIfPossible_spec [of ascii_width one_label "''a''" 12 0 2 "Some 5"]
    writeIfPossible_spec [of ascii_width "new_LabelBuffer :: nat LabelBuffer" "''a''" 0 0 1 "Some 5"]
  by (simp add: tree_one_label intersects_def ascii_width_def new_LabelBuffer_def collides_def)

text \<open>
  The rectangle with margin of a call at \<open>(20, 0)\<close>, \<open>[5, 16] \<times> [-5/2, 5/2]\<close>, collides
  with the stored rectangle \<open>[-5, 6] \<times> [-5/2, 5/2]\<close>, and the call is accepted.
\<close>

theorem writeIfPossible_counterexample:
  "calculateArea ascii_width ''a'' (of_int (fst (label_project 20 0))) (of_int (snd (label_project 20 0))) 5
     = \<lparr>minX = 5, minY = -5/2, maxX = 16, maxY = 5/2\<rparr> \<and>
   collides (tree one_label) \<lparr>minX = 5, minY = -5/2, maxX = 16, maxY = 5/2\<rparr> \<and>
   fst (writeIfPossible ascii_width one_label ''a'' 20 0 2 (Some 5)) = ReturnedTree"
  by code_simp

section \<open>Properties of Canvas\<close>

lemma length_flatten_ring: "length (flatten_ring ring) = 2 * length ring"
  by (induction ring) (simp_all add: flatten_ring_def)

lemma flatten_ring_nonempty: "\<not> length ring < 3 \<Longrightarrow> flatten_ring ring \<noteq> []"
  by (cases ring) (simp_all add: flatten_ring_def)

lemma collectRings_inner:
  "vertices \<noteq> [] \<Longrightarrow> even (length vertices) \<Longrightarrow>
   collectRings rings vertices holes =
     Some (vertices @ concat (map flatten_ring (kept_rings rings)),
           holes @ hole_starts (length vertices div 2) (kept_rings rings))"
proof (induction rings arbitrary: vertices holes)
  case Nil
  then show ?case by (simp add: kept_rings_def)
next
  case (Cons ring rings)
  show ?case
  proof (cases "length ring < 3")
    case True
    then show ?thesis using Cons.prems Cons.IH[of vertices holes] by (simp add: kept_rings_def)
  next
    case False
    have ne: "vertices @ flatten_ring ring \<noteq> []" using Cons.prems by simp
    have ev: "even (length (vertices @ flatten_ring ring))"
      using Cons.prems by (simp add: length_flatten_ring)
    have d: "length (vertices @ flatten_ring ring) div 2 = length vertices div 2 + length ring"
      using Cons.prems by (auto simp: length_flatten_ring elim!: evenE)
    from Cons.IH[OF ne ev, of "holes @ [length vertices div 2]"] False Cons.prems d
    show ?thesis by (simp add: kept_rings_def)
  qed
qed

lemma collectRings_outer:
  assumes "\<not> length ring < 3"
  shows "collectRings (ring # rings) [] [] =
     Some (concat (map flatten_ring (ring # kept_rings rings)),
           hole_starts (length ring) (kept_rings rings))"
proof -
  have "collectRings (ring # rings) [] [] = collectRings rings (flatten_ring ring) []"
    using assms by simp
  also have "\<dots> = Some (flatten_ring ring @ concat (map flatten_ring (kept_rings rings)),
           [] @ hole_starts (length (flatten_ring ring) div 2) (kept_rings rings))"
    by (rule collectRings_inner) (simp_all add: flatten_ring_nonempty[OF assms] length_flatten_ring)
  finally show ?thesis by (simp add: length_flatten_ring)
qed

lemma drawTriangles_defined:
  "3 dvd length triangles \<Longrightarrow> (\<forall>i \<in> set triangles. i * 2 + 1 < length vertices) \<Longrightarrow>
   drawTriangles bres vertices color triangles cv \<noteq> None"
proof (induction bres vertices color triangles cv rule: drawTriangles.induct)
  case (1 bres vertices color i j k triangles cv)
  have "length (i # j # k # triangles) = length triangles + 3" by simp
  with "1.prems"(1) have d: "3 dvd length triangles"
    by (simp only: dvd_add_triv_right_iff)
  have a: "\<forall>i \<in> set triangles. i * 2 + 1 < length vertices" using "1.prems"(2) by simp
  obtain pa pb pc where e: "polygonExtract vertices i = Some pa" "polygonExtract vertices j = Some pb"
      "polygonExtract vertices k = Some pc"
    using "1.prems"(2) by (simp add: polygonExtract_def)
  have "drawTriangles bres vertices color triangles (filledTriangle bres cv pa pb pc color) \<noteq> None"
    by (rule "1.IH"[OF refl e(1) refl e(2) e(3) d a])
  then show ?case by (simp add: e)
next
  case (2 bres vertices color cv)
  then show ?case by simp
next
  case "3_1"
  then have False by (auto dest: dvd_imp_le)
  then show ?case ..
next
  case "3_2"
  then have False by (auto dest: dvd_imp_le)
  then show ?case ..
qed

text \<open>
  C7. For a list of rings that starts with the ring \<open>ring\<close>: when \<open>ring\<close> has fewer
  than 3 vertices, \<open>polygon\<close> returns false and the canvas is unchanged. When it has at
  least 3, the inner rings of fewer than 3 vertices are skipped: the triangulation gets
  the flattened vertices of the outer ring and of the other inner rings, with the
  index at which each of these starts. When the triangulation throws on them,
  \<open>polygon\<close> returns false and the canvas is unchanged; when it returns triangles,
  \<open>polygon\<close> draws them and returns true, for any triples of indices of vertices.
\<close>

theorem polygon_failure_modes:
  "(length ring < 3 \<longrightarrow> polygon earcut bres cv (ring # rings) color = Some (False, cv)) \<and>
   (\<not> length ring < 3 \<longrightarrow>
      collectRings (ring # rings) [] [] =
        Some (concat (map flatten_ring (ring # kept_rings rings)),
              hole_starts (length ring) (kept_rings rings)) \<and>
      (earcut (concat (map flatten_ring (ring # kept_rings rings)))
              (hole_starts (length ring) (kept_rings rings)) = None \<longrightarrow>
         polygon earcut bres cv (ring # rings) color = Some (False, cv)) \<and>
      (\<forall>triangles.
         earcut (concat (map flatten_ring (ring # kept_rings rings)))
                (hole_starts (length ring) (kept_rings rings)) = Some triangles \<longrightarrow>
         polygon earcut bres cv (ring # rings) color =
           map_option (\<lambda>cv'. (True, cv'))
             (drawTriangles bres (concat (map flatten_ring (ring # kept_rings rings))) color
                triangles cv) \<and>
         (3 dvd length triangles \<and>
          (\<forall>i \<in> set triangles.
             i * 2 + 1 < length (concat (map flatten_ring (ring # kept_rings rings)))) \<longrightarrow>
          (\<exists>cv'. polygon earcut bres cv (ring # rings) color = Some (True, cv')))))"
proof (intro conjI impI allI)
  assume "length ring < 3"
  then show "polygon earcut bres cv (ring # rings) color = Some (False, cv)"
    by (simp add: polygon_def)
next
  assume l: "\<not> length ring < 3"
  show "collectRings (ring # rings) [] [] =
        Some (concat (map flatten_ring (ring # kept_rings rings)),
              hole_starts (length ring) (kept_rings rings))"
    by (rule collectRings_outer[OF l])
next
  assume l: "\<not> length ring < 3"
    and "earcut (concat (map flatten_ring (ring # kept_rings rings)))
              (hole_starts (length ring) (kept_rings rings)) = None"
  then show "polygon earcut bres cv (ring # rings) color = Some (False, cv)"
    by (simp add: polygon_def collectRings_outer[OF l] del: collectRings.simps)
next
  fix triangles
  assume l: "\<not> length ring < 3"
    and e: "earcut (concat (map flatten_ring (ring # kept_rings rings)))
                (hole_starts (length ring) (kept_rings rings)) = Some triangles"
  then show p: "polygon earcut bres cv (ring # rings) color =
           map_option (\<lambda>cv'. (True, cv'))
             (drawTriangles bres (concat (map flatten_ring (ring # kept_rings rings))) color
                triangles cv)"
    by (simp add: polygon_def collectRings_outer[OF l] del: collectRings.simps)
  assume "3 dvd length triangles \<and>
          (\<forall>i \<in> set triangles.
             i * 2 + 1 < length (concat (map flatten_ring (ring # kept_rings rings))))"
  then have "drawTriangles bres (concat (map flatten_ring (ring # kept_rings rings))) color
                triangles cv \<noteq> None"
    using drawTriangles_defined by blast
  then show "\<exists>cv'. polygon earcut bres cv (ring # rings) color = Some (True, cv')"
    unfolding p by auto
qed

lemma polygon_example:
  "map_option fst (polygon earcut_first end_points canvas_4x8 [[(0,0),(3,0),(0,3)], [(1,1)]] 7)
     = Some True \<and>
   map_option (\<lambda>r. pixelBuffer (buffer (snd r)))
     (polygon earcut_first end_points canvas_4x8 [[(0,0),(3,0),(0,3)], [(1,1)]] 7)
     = Some [73, 9, 0, 0] \<and>
   map_option (\<lambda>r. foregroundBuffer (buffer (snd r)))
     (polygon earcut_first end_points canvas_4x8 [[(0,0),(3,0),(0,3)], [(1,1)]] 7)
     = Some [7, 7, 0, 0]"
  by code_simp


theorem polygon_failure_modes_witness:
  "polygon earcut_first end_points canvas_4x8 [[(0,0),(1,1)]] 7 = Some (False, canvas_4x8) \<and>
   collectRings [[(0,0),(3,0),(0,3)], [(1,1)]] [] [] = Some ([0,0,3,0,0,3], []) \<and>
   earcut_first [0,0,3,0,0,3] [] = Some [0, 1, 2] \<and>
   map_option fst (polygon earcut_first end_points canvas_4x8 [[(0,0),(3,0),(0,3)], [(1,1)]] 7)
     = Some True \<and>
   map_option (\<lambda>r. pixelBuffer (buffer (snd r)))
     (polygon earcut_first end_points canvas_4x8 [[(0,0),(3,0),(0,3)], [(1,1)]] 7)
     = Some [73, 9, 0, 0] \<and>
   earcut_throws [0,0,3,0,0,3] [] = None \<and>
   polygon earcut_throws end_points canvas_4x8 [[(0,0),(3,0),(0,3)], [(1,1)]] 7 = Some (False, canvas_4x8)"
proof -
  have short: "polygon earcut_first end_points canvas_4x8 [[(0,0),(1,1)]] 7 = Some (False, canvas_4x8)"
    using polygon_failure_modes [of "[(0,0),(1,1)]" earcut_first end_points canvas_4x8 "[]" 7]
    by simp
  note ok = polygon_failure_modes [of "[(0,0),(3,0),(0,3)]" earcut_first end_points canvas_4x8 "[[(1,1)]]" 7]
  have c: "collectRings [[(0,0),(3,0),(0,3)], [(1,1)]] [] [] = Some ([0,0,3,0,0,3], [])"
    using ok by (simp add: kept_rings_def flatten_ring_def del: collectRings.simps)
  have l: "\<not> length [(0::int,0::int),(3,0),(0,3)] < 3" by simp
  have ef: "earcut_first (concat (map flatten_ring ([(0,0),(3,0),(0,3)] # kept_rings [[(1,1)]])))
      (hole_starts (length [(0::int,0::int),(3,0),(0,3)]) (kept_rings [[(1,1)]])) = Some [0, 1, 2]"
    by (simp add: earcut_first_def)
  have d: "3 dvd length [0::nat, 1, 2]" by (simp add: numeral_3_eq_3)
  have r: "\<forall>i \<in> set [0::nat, 1, 2]. i * 2 + 1 <
      length (concat (map flatten_ring ([(0,0),(3,0),(0,3)] # kept_rings [[(1,1)]])))"
    by (simp add: kept_rings_def flatten_ring_def)
  have "\<exists>cv'. polygon earcut_first end_points canvas_4x8 [[(0,0),(3,0),(0,3)], [(1,1)]] 7 = Some (True, cv')"
    using ok l ef d r by blast
  then have t: "map_option fst
      (polygon earcut_first end_points canvas_4x8 [[(0,0),(3,0),(0,3)], [(1,1)]] 7) = Some True"
    by auto
  have throws: "polygon earcut_throws end_points canvas_4x8 [[(0,0),(3,0),(0,3)], [(1,1)]] 7 =
      Some (False, canvas_4x8)"
    using polygon_failure_modes [of "[(0,0),(3,0),(0,3)]" earcut_throws end_points canvas_4x8 "[[(1,1)]]" 7]
    by (simp add: kept_rings_def flatten_ring_def earcut_throws_def del: collectRings.simps)
  have e: "earcut_first [0,0,3,0,0,3] [] = Some [0, 1, 2]" "earcut_throws [0,0,3,0,0,3] [] = None"
    by (simp_all add: earcut_first_def earcut_throws_def)
  show ?thesis using short c t throws polygon_example e by blast
qed

section \<open>Properties of Styler\<close>

text \<open>
  C1. The predicate compiled from \<open>["all", f1, ...]\<close> accepts a feature exactly when
  some sub-filter rejects it, the negation of the conjunction: with no sub-filter it
  rejects every feature, and \<open>["all", ["==", "class", "a"]]\<close> rejects a feature of
  class \<open>a\<close> that its only sub-filter accepts.
\<close>

theorem compileFilter_all_inverted:
  "compileFilter s2n (JArr (JStr ''all'' # subs)) f = (\<not> list_all (\<lambda>sub. compileFilter s2n sub f) subs) \<and>
   compileFilter s2n (JArr [JStr ''all'']) f = False \<and>
   compileFilter no_number class_is_a feature_a = True \<and>
   compileFilter no_number (JArr [JStr ''all'', class_is_a]) feature_a = False"
proof (intro conjI)
  show "compileFilter s2n (JArr (JStr ''all'' # subs)) f = (\<not> list_all (\<lambda>sub. compileFilter s2n sub f) subs)"
    by (simp add: list_ex_iff list_all_iff)
  show "compileFilter s2n (JArr [JStr ''all'']) f = False" by simp
  show c: "compileFilter no_number class_is_a feature_a = True"
    by (simp add: class_is_a_def feature_a_def leafFilter_def get_prop_def nth_or_undefined_def)
  show "compileFilter no_number (JArr [JStr ''all'', class_is_a]) feature_a = False"
    using c by simp
qed

section \<open>Properties of Tile\<close>

lemma node_sort_bound_step: "node_sort (bound_step p d) = node_sort d"
  by (simp add: bound_step_def Let_def)

lemma node_sort_fold_bound_step: "node_sort (fold bound_step ps d) = node_sort d"
  by (induction ps arbitrary: d) (simp_all add: node_sort_bound_step)

lemma node_sort_addBoundaries:
  "addBoundaries deep d = Inr d' \<Longrightarrow> node_sort d' = node_sort d"
  by (auto simp: node_sort_fold_bound_step unbounded_def split: if_splits points.splits list.splits bool.splits)

lemma collect_nodes_mem:
  "collect_nodes rs = Inr ns \<Longrightarrow> n \<in> set ns \<Longrightarrow> Inr n \<in> set rs"
proof (induction rs arbitrary: ns rule: collect_nodes.induct)
  case 1
  then show ?case by simp
next
  case (2 e rs)
  then show ?case by simp
next
  case (3 m rs)
  then show ?case by (auto split: sum.splits)
qed

lemma featureNodes_sort:
  assumes "featureNodes cfg s2n colorOf styler name f = Inr nodes" and "n \<in> set nodes"
  shows "node_sort n = js_or_else (get_prop f ''localrank'') (get_prop f ''scalerank'')"
proof -
  define f' where "f' = f\<lparr>properties := (properties f)(''$type'' \<mapsto> type_name (ftype f))\<rparr>"
  have p: "get_prop f' ''localrank'' = get_prop f ''localrank''"
    "get_prop f' ''scalerank'' = get_prop f ''scalerank''"
    by (simp_all add: f'_def get_prop_def)
  from assms obtain st style colorCode where
    st: "styler = Some st" and style: "getStyleFor s2n st name f' = Some style"
    and col: "colorOf style = Some colorCode"
    by (auto simp: featureNodes_def f'_def Let_def split: option.splits)
  define label where "label = (if style_type style = JStr ''symbol''
                                    then js_or_else (get_prop f' (''name_'' @ language cfg))
                                          (js_or_else (get_prop f' ''name_en'')
                                            (js_or_else (get_prop f' ''name'')
                                              (get_prop f' ''house_num'')))
                                    else JUndefined)"
  define node where "node = (\<lambda>points.
                              \<lparr>node_layer = name, node_style = style, node_label = label,
                               node_sort = js_or_else (get_prop f' ''localrank'') (get_prop f' ''scalerank''),
                               node_points = points, node_color = colorCode,
                               node_minX = Num 0, node_maxX = Num 0,
                               node_minY = Num 0, node_maxY = Num 0\<rparr>)"
  have ns: "node_sort (node pts) = js_or_else (get_prop f ''localrank'') (get_prop f ''scalerank'')" for pts
    by (simp add: node_def p)
  have eq: "featureNodes cfg s2n colorOf styler name f =
     (if style_type style = JStr ''fill''
      then collect_nodes [addBoundaries True (node (Rings (geometry f')))]
      else collect_nodes (map (\<lambda>points. addBoundaries False (node (Line points))) (geometry f')))"
    using st style col
    by (simp add: featureNodes_def Let_def node_def label_def f'_def[symmetric])
  from assms eq have "\<exists>deep pts. addBoundaries deep (node pts) = Inr n"
  proof (cases "style_type style = JStr ''fill''")
    case True
    with assms eq have "Inr n \<in> set [addBoundaries True (node (Rings (geometry f')))]"
      by (auto dest: collect_nodes_mem)
    then have "addBoundaries True (node (Rings (geometry f'))) = Inr n"
      by (simp del: addBoundaries.simps)
    then show ?thesis by blast
  next
    case False
    with assms eq have "Inr n \<in> set (map (\<lambda>points. addBoundaries False (node (Line points))) (geometry f'))"
      by (auto dest: collect_nodes_mem)
    then obtain points where "addBoundaries False (node (Line points)) = Inr n"
      by (auto simp del: addBoundaries.simps)
    then show ?thesis by blast
  qed
  then obtain deep pts where "addBoundaries deep (node pts) = Inr n" by blast
  from node_sort_addBoundaries[OF this] show ?thesis by (simp add: ns)
qed


lemma layerNodes_mem:
  "layerNodes cfg s2n colorOf styler name fs = Inr nodes \<Longrightarrow> n \<in> set nodes \<Longrightarrow>
   \<exists>f \<in> set fs. \<exists>ns. featureNodes cfg s2n colorOf styler name f = Inr ns \<and> n \<in> set ns"
proof (induction fs arbitrary: nodes)
  case Nil
  then show ?case by simp
next
  case (Cons f fs)
  from Cons.prems(1) obtain ns ms where
    f: "featureNodes cfg s2n colorOf styler name f = Inr ns"
    and fs: "layerNodes cfg s2n colorOf styler name fs = Inr ms"
    and nodes: "nodes = ns @ ms"
    by (auto split: sum.splits)
  from Cons.prems(2) nodes consider "n \<in> set ns" | "n \<in> set ms" by auto
  then show ?case
  proof cases
    case 1
    with f show ?thesis by auto
  next
    case 2
    from Cons.IH[OF fs 2] show ?thesis by auto
  qed
qed

text \<open>
  C9. Every record built for a layer comes from one of its features, and its sort key
  is \<open>localrank || scalerank\<close> of that feature: the property \<open>localrank\<close> when that
  is truthy (present and not 0), and the property \<open>scalerank\<close> otherwise, which reads
  \<open>undefined\<close> when the feature has none.
\<close>

theorem node_sort_key:
  assumes "layerNodes cfg s2n colorOf styler name fs = Inr nodes" and "n \<in> set nodes"
  shows "\<exists>f \<in> set fs.
           (\<exists>ns. featureNodes cfg s2n colorOf styler name f = Inr ns \<and> n \<in> set ns) \<and>
           node_sort n = (if truthy (get_prop f ''localrank'')
                          then get_prop f ''localrank'' else get_prop f ''scalerank'')"
proof -
  from layerNodes_mem[OF assms] obtain f ns where
    f: "f \<in> set fs" "featureNodes cfg s2n colorOf styler name f = Inr ns" "n \<in> set ns"
    by blast
  from featureNodes_sort[OF f(2,3)] have
    "node_sort n = (if truthy (get_prop f ''localrank'')
                    then get_prop f ''localrank'' else get_prop f ''scalerank'')"
    by (simp add: js_or_else_def)
  with f show ?thesis by blast
qed

lemma layerNodes_ranked:
  "layerNodes cfg0 no_number color7 (Some road_styler) ''road'' [feature_ranked] = Inr ranked_nodes"
  by code_simp

lemma ranked_nodes_nonempty: "ranked_nodes \<noteq> []"
  by code_simp

theorem node_sort_key_witness:
  "layerNodes cfg0 no_number color7 (Some road_styler) ''road'' [feature_ranked] = Inr ranked_nodes \<and>
   hd ranked_nodes \<in> set ranked_nodes \<and>
   get_prop feature_ranked ''localrank'' = JNum 4 \<and>
   node_sort (hd ranked_nodes) = JNum 4"
proof -
  have l: "layerNodes cfg0 no_number color7 (Some road_styler) ''road'' [feature_ranked] = Inr ranked_nodes"
    by (rule layerNodes_ranked)
  have m: "hd ranked_nodes \<in> set ranked_nodes"
    using ranked_nodes_nonempty by simp
  have g: "get_prop feature_ranked ''localrank'' = JNum 4"
    by (simp add: get_prop_def feature_ranked_def)
  from node_sort_key[OF l m] have "node_sort (hd ranked_nodes) = JNum 4"
    by (simp add: g)
  with l m g show ?thesis by simp
qed

text \<open>
  A feature without \<open>localrank\<close> and \<open>scalerank\<close> gets the sort key \<open>undefined\<close>,
  not 0, and a feature with \<open>localrank\<close> 0 and \<open>scalerank\<close> 9 gets the sort key 9.
\<close>

theorem node_sort_key_counterexample:
  "properties feature_a ''localrank'' = None \<and> properties feature_a ''scalerank'' = None \<and>
   properties feature_rank0 ''localrank'' = Some (JNum 0) \<and>
   map_sum id (map node_sort)
     (layerNodes cfg0 no_number color7 (Some road_styler) ''road'' [feature_a, feature_rank0])
     = Inr [JUndefined, JNum 9]"
  by code_simp

section \<open>Properties of TileSource\<close>

lemma cached_evict:
  "cached (evict ts) = drop (length (cached ts) - cacheSize ts) (cached ts)"
  by (simp add: evict_def Let_def)

lemma cacheSize_evict: "cacheSize (evict ts) = cacheSize ts"
  by (simp add: evict_def Let_def)

lemma mode_evict: "mode (evict ts) = mode ts"
  by (simp add: evict_def Let_def)

lemma digit_no_dash: "d < 10 \<Longrightarrow> ''0123456789'' ! d \<noteq> CHR ''-''"
proof -
  assume "d < 10"
  then have "d \<in> {0, 1, 2, 3, 4, 5, 6, 7, 8, 9}" by auto
  then show ?thesis by (auto simp: nth_Cons')
qed

lemma show_nat_no_dash: "CHR ''-'' \<notin> set (show_nat n)"
proof (induction n rule: show_nat.induct)
  case (1 n)
  show ?case
  proof (cases "n < 10")
    case True
    then show ?thesis using digit_no_dash[of n] by (subst show_nat.simps) auto
  next
    case False
    have "n mod 10 < 10" by simp
    from digit_no_dash[OF this] "1.IH"[OF False] False show ?thesis
      by (subst show_nat.simps) auto
  qed
qed

lemma tile_key_dash: "CHR ''-'' \<in> set (tile_key z x y)"
  by (simp add: tile_key_def)

lemma map_of_fold_delete:
  "(\<And>i. i \<in> set is \<Longrightarrow> g i \<noteq> k) \<Longrightarrow>
   map_of (fold (\<lambda>i c. AList.delete (g i) c) is c) k = map_of c k"
proof (induction "is" arbitrary: c)
  case Nil
  then show ?case by simp
next
  case (Cons a "is")
  have ne: "k \<noteq> g a" using Cons.prems[of a] by auto
  have "map_of (fold (\<lambda>i c. AList.delete (g i) c) is (AList.delete (g a) c)) k =
        map_of (AList.delete (g a) c) k"
    using Cons.prems by (intro Cons.IH) simp
  also have "\<dots> = map_of c k" using ne by (simp add: delete_conv')
  finally show ?case by simp
qed

lemma map_of_evict:
  "CHR ''-'' \<in> set k \<Longrightarrow> map_of (cache (evict ts)) k = map_of (cache ts) k"
proof -
  assume k: "CHR ''-'' \<in> set k"
  have "show_nat i \<noteq> k" for i using show_nat_no_dash[of i] k by auto
  then show ?thesis by (simp add: evict_def Let_def map_of_fold_delete)
qed

lemma getTile_keeps_tiles:
  assumes "getTile ts z x y = Inr (p, ts')"
  shows "map_of (cache ts') (tile_key z' x' y') = map_of (cache ts) (tile_key z' x' y')"
  using assms
  by (auto simp: getTile_def Let_def map_of_evict tile_key_dash split: option.splits if_splits)

lemma createTile_keeps_tiles:
  "map_of (cache ts) k \<noteq> None \<Longrightarrow> map_of (cache (createTile ts z x y t)) k \<noteq> None"
  by (simp add: createTile_def Let_def update_conv')

lemma run_keeps_tiles:
  "run ts es = Inr ts' \<Longrightarrow> map_of (cache ts) (tile_key z x y) \<noteq> None \<Longrightarrow>
   map_of (cache ts') (tile_key z x y) \<noteq> None"
proof (induction ts es rule: run.induct)
  case (1 ts)
  then show ?case by simp
next
  case (2 ts z' x' y' es)
  from "2.prems"(1) obtain p ts1 where
    g: "getTile ts z' x' y' = Inr (p, ts1)" and r: "run ts1 es = Inr ts'"
    by (auto split: sum.splits)
  from getTile_keeps_tiles[OF g] "2.prems"(2)
  have "map_of (cache ts1) (tile_key z x y) \<noteq> None" by simp
  from "2.IH"[OF g refl r this] show ?case .
next
  case (3 ts z' x' y' es)
  from "3.prems"(1) have r: "run (createTile ts z' x' y' (tile_key z' x' y')) es = Inr ts'" by simp
  from "3.IH"[OF r createTile_keeps_tiles[OF "3.prems"(2)]] show ?case .
qed

text \<open>
  C3. The eviction of \<open>getTile\<close> takes the oldest keys off the list \<open>cached\<close>, but
  what it deletes from the cache are the array indices \<open>"0", "1", ...\<close>, which are
  no keys of tiles, so that nothing ever removes a tile from the cache. After 18
  awaited calls for different tiles on a new source the list holds the 17 newest keys
  and the cache all 18 tiles, the oldest included, where \<open>cacheSize\<close> is 16; after 40
  awaited calls the cache holds 40 tiles.
\<close>

theorem getTile_never_evicts:
  "map_sum id (\<lambda>ts. (length (cache ts), length (cached ts), cacheSize ts))
     (run (init_TileSource HTTP) (awaited_calls 18)) = Inr (18, 17, 16) \<and>
   map_sum id (\<lambda>ts. map fst (cache ts)) (run (init_TileSource HTTP) (awaited_calls 18)) =
     Inr [''5-0-0'', ''5-1-0'', ''5-2-0'', ''5-3-0'', ''5-4-0'', ''5-5-0'', ''5-6-0'', ''5-7-0'',
          ''5-8-0'', ''5-9-0'', ''5-10-0'', ''5-11-0'', ''5-12-0'', ''5-13-0'', ''5-14-0'',
          ''5-15-0'', ''5-16-0'', ''5-17-0''] \<and>
   map_sum id (\<lambda>ts. cached ts) (run (init_TileSource HTTP) (awaited_calls 18)) =
     Inr [''5-1-0'', ''5-2-0'', ''5-3-0'', ''5-4-0'', ''5-5-0'', ''5-6-0'', ''5-7-0'',
          ''5-8-0'', ''5-9-0'', ''5-10-0'', ''5-11-0'', ''5-12-0'', ''5-13-0'', ''5-14-0'',
          ''5-15-0'', ''5-16-0'', ''5-17-0''] \<and>
   map_sum id (\<lambda>ts. length (cache ts)) (run (init_TileSource HTTP) (awaited_calls 40)) = Inr 40"
  by code_simp

end
